theory Spec2Isabelle
  imports Main "HOL-Library.Sublist" "HOL-Library.AList"
begin

section \<open>Python values\<close>

text \<open>
  The programs handle values decoded from JSON (\<^verbatim>\<open>response.json()\<close>, \<^verbatim>\<open>json.load\<close>) and
  inspect them dynamically (\<^verbatim>\<open>isinstance\<close>, \<^verbatim>\<open>.get\<close>, truthiness). A value is therefore
  one of the shapes the JSON decoder produces. A \<^verbatim>\<open>dict\<close> is an association list in
  insertion order, looked up with \<open>map_of\<close> and written with \<open>AList.update\<close> (an
  existing key keeps its place, a new key goes last, as in Python). Numbers are
  Python's unbounded integers; floating-point numbers are outside the model. Strings
  are lists of characters, a character being a code point below 256.
\<close>

datatype pyval =
    PNone
  | PBool bool
  | PInt int
  | PStr string
  | PList "pyval list"
  | PDict "(string \<times> pyval) list"

type_synonym pydict = "(string \<times> pyval) list"

text \<open>The exceptions the operations on these values raise.\<close>

datatype py_error = TypeError | KeyError | AttributeError

text \<open>Truth value of an object, as \<^verbatim>\<open>if value\<close> and \<^verbatim>\<open>not value\<close> test it.\<close>

fun truthy :: "pyval \<Rightarrow> bool" where
  "truthy PNone = False"
| "truthy (PBool b) = b"
| "truthy (PInt n) = (n \<noteq> 0)"
| "truthy (PStr s) = (s \<noteq> [])"
| "truthy (PList xs) = (xs \<noteq> [])"
| "truthy (PDict kvs) = (kvs \<noteq> [])"

text \<open>\<^verbatim>\<open>d.get(key, default)\<close> on a dict.\<close>

definition dict_get :: "pydict \<Rightarrow> string \<Rightarrow> pyval \<Rightarrow> pyval" where
  "dict_get d k dflt = (case map_of d k of Some v \<Rightarrow> v | None \<Rightarrow> dflt)"

text \<open>
  \<^verbatim>\<open>needle in haystack\<close> on strings, and \<^verbatim>\<open>s.lower()\<close>. Python's \<^verbatim>\<open>str.lower\<close> is the case
  mapping of the Unicode standard; the functions that call it take it as their
  parameter \<open>lower\<close> and use nothing of it but its results. \<open>py_lower\<close> is \<^verbatim>\<open>str.lower\<close> on
  ASCII text, the instance used where a concrete run is evaluated.
\<close>

definition lower_char :: "char \<Rightarrow> char" where
  "lower_char c =
     (let n = (of_char c :: nat) in if 65 \<le> n \<and> n \<le> 90 then char_of (n + 32) else c)"

definition py_lower :: "string \<Rightarrow> string" where
  "py_lower s = map lower_char s"

fun py_in :: "string \<Rightarrow> string \<Rightarrow> bool" where
  "py_in needle [] = (needle = [])"
| "py_in needle (c # cs) = (prefix needle (c # cs) \<or> py_in needle cs)"

text \<open>
  \<^verbatim>\<open>str(value)\<close>. For a string it is the string; for anything else it is \<^verbatim>\<open>repr\<close>, which
  quotes and escapes the strings nested inside lists and dicts: the backslash and
  the quote in use, tab, newline and carriage return by their letters, every other
  character that is not printable (below 32, from 127 to 160, and 173) as \<^verbatim>\<open>\xNN\<close>.
\<close>

function digits :: "nat \<Rightarrow> string" where
  "digits n = (if n < 10 then [char_of (48 + n)] else digits (n div 10) @ [char_of (48 + n mod 10)])"
  by pat_completeness auto
termination
  by (relation "measure id") auto

declare digits.simps [simp del]

definition int_str :: "int \<Rightarrow> string" where
  "int_str i = (if i < 0 then CHR ''-'' # digits (nat (- i)) else digits (nat i))"

definition hex_digit :: "nat \<Rightarrow> char" where
  "hex_digit n = (if n < 10 then char_of (48 + n) else char_of (87 + n))"

definition escape_char :: "char \<Rightarrow> char \<Rightarrow> string" where
  "escape_char quote c =
     (let n = (of_char c :: nat) in
      if c = quote \<or> n = 92 then [char_of (92::nat), c]
      else if n = 9 then [char_of (92::nat), CHR ''t'']
      else if n = 10 then [char_of (92::nat), CHR ''n'']
      else if n = 13 then [char_of (92::nat), CHR ''r'']
      else if n < 32 \<or> (127 \<le> n \<and> n \<le> 160) \<or> n = 173
        then [char_of (92::nat), CHR ''x'', hex_digit (n div 16), hex_digit (n mod 16)]
      else [c])"

definition repr_str :: "string \<Rightarrow> string" where
  "repr_str s =
     (let quote = (if char_of (39::nat) \<in> set s \<and> char_of (34::nat) \<notin> set s
                   then char_of (34::nat) else char_of (39::nat))
      in quote # concat (map (escape_char quote) s) @ [quote])"

fun join :: "string \<Rightarrow> string list \<Rightarrow> string" where
  "join sep [] = []"
| "join sep [x] = x"
| "join sep (x # y # ys) = x @ sep @ join sep (y # ys)"

fun py_repr :: "pyval \<Rightarrow> string" where
  "py_repr PNone = ''None''"
| "py_repr (PBool b) = (if b then ''True'' else ''False'')"
| "py_repr (PInt i) = int_str i"
| "py_repr (PStr s) = repr_str s"
| "py_repr (PList xs) = ''['' @ join '', '' (map py_repr xs) @ '']''"
| "py_repr (PDict kvs) =
     ''{'' @ join '', '' (map (\<lambda>kv. repr_str (fst kv) @ '': '' @ py_repr (snd kv)) kvs) @ ''}''"

definition py_str :: "pyval \<Rightarrow> string" where
  "py_str v = (case v of PStr s \<Rightarrow> s | _ \<Rightarrow> py_repr v)"

section \<open>Cell formatting (the viewers)\<close>

text \<open>
  \<^verbatim>\<open>format_cell\<close> of \<^verbatim>\<open>view_announcements_data.py\<close>. The f-string \<^verbatim>\<open>f"{text} [PDF]"\<close>
  formats \<^verbatim>\<open>text\<close> with \<^verbatim>\<open>str\<close>. In the last branch of the dict case the function
  returns \<^verbatim>\<open>text\<close> itself, whatever its type, so the result is a Python value and
  not always a string.
\<close>

definition format_cell :: "pyval \<Rightarrow> pyval" where
  "format_cell v =
     (case v of
        PDict d \<Rightarrow>
          (case map_of d ''text'' of
             Some text \<Rightarrow>
               if map_of d ''type'' = Some (PStr ''pdf'') then PStr (py_str text @ '' [PDF]'')
               else if map_of d ''type'' = Some (PStr ''xbrl'') then PStr (py_str text @ '' [XBRL]'')
               else text
           | None \<Rightarrow> PStr (py_str v))
      | _ \<Rightarrow> if truthy v then PStr (py_str v) else PStr [])"

text \<open>\<^verbatim>\<open>format_cell\<close> of \<^verbatim>\<open>view_latest_data.py\<close> (and of the two credit-rating viewers).\<close>

definition format_cell_latest :: "pyval \<Rightarrow> pyval" where
  "format_cell_latest v =
     (case v of
        PDict d \<Rightarrow>
          (case map_of d ''text'' of
             Some text \<Rightarrow> text
           | None \<Rightarrow> PStr (py_str v))
      | _ \<Rightarrow> if truthy v then PStr (py_str v) else PStr [])"

definition is_str :: "pyval \<Rightarrow> bool" where
  "is_str v = (case v of PStr s \<Rightarrow> True | _ \<Rightarrow> False)"

text \<open>
  The two functions again, statement by statement, over the operations as Python
  has them, each raising where Python raises: \<^verbatim>\<open>key in value\<close> (a \<^verbatim>\<open>TypeError\<close> on a
  value that is not a container), \<^verbatim>\<open>value[key]\<close> with a string key (\<^verbatim>\<open>KeyError\<close> on a dict
  without the key, \<^verbatim>\<open>TypeError\<close> on anything that is not a dict) and \<^verbatim>\<open>value.get(key)\<close>
  (\<^verbatim>\<open>AttributeError\<close> on anything that is not a dict). \<^verbatim>\<open>isinstance\<close>, \<^verbatim>\<open>==\<close>, \<^verbatim>\<open>str\<close>, the
  f-string and the truth test raise on no value.
\<close>

definition py_contains :: "string \<Rightarrow> pyval \<Rightarrow> py_error + bool" where
  "py_contains key v =
     (case v of
        PDict d \<Rightarrow> Inr (map_of d key \<noteq> None)
      | PStr s \<Rightarrow> Inr (py_in key s)
      | PList xs \<Rightarrow> Inr (PStr key \<in> set xs)
      | _ \<Rightarrow> Inl TypeError)"

definition py_getitem :: "pyval \<Rightarrow> string \<Rightarrow> py_error + pyval" where
  "py_getitem v key =
     (case v of
        PDict d \<Rightarrow> (case map_of d key of Some x \<Rightarrow> Inr x | None \<Rightarrow> Inl KeyError)
      | _ \<Rightarrow> Inl TypeError)"

definition py_get :: "pyval \<Rightarrow> string \<Rightarrow> py_error + pyval" where
  "py_get v key =
     (case v of
        PDict d \<Rightarrow> Inr (dict_get d key PNone)
      | _ \<Rightarrow> Inl AttributeError)"

definition is_dict :: "pyval \<Rightarrow> bool" where
  "is_dict v = (case v of PDict d \<Rightarrow> True | _ \<Rightarrow> False)"

definition format_cell_run :: "pyval \<Rightarrow> py_error + pyval" where
  "format_cell_run v =
     (if is_dict v then
        (case py_contains ''text'' v of
           Inl e \<Rightarrow> Inl e
         | Inr has_text \<Rightarrow>
             if has_text then
               (case py_getitem v ''text'' of
                  Inl e \<Rightarrow> Inl e
                | Inr text \<Rightarrow>
                    (case py_get v ''type'' of
                       Inl e \<Rightarrow> Inl e
                     | Inr ty \<Rightarrow>
                         if ty = PStr ''pdf'' then Inr (PStr (py_str text @ '' [PDF]''))
                         else if ty = PStr ''xbrl'' then Inr (PStr (py_str text @ '' [XBRL]''))
                         else Inr text))
             else Inr (PStr (py_str v)))
      else Inr (if truthy v then PStr (py_str v) else PStr []))"

definition format_cell_latest_run :: "pyval \<Rightarrow> py_error + pyval" where
  "format_cell_latest_run v =
     (if is_dict v then
        (case py_contains ''text'' v of
           Inl e \<Rightarrow> Inl e
         | Inr has_text \<Rightarrow>
             if has_text then py_getitem v ''text''
             else Inr (PStr (py_str v)))
      else Inr (if truthy v then PStr (py_str v) else PStr []))"

section \<open>Record filters (the viewers)\<close>

text \<open>
  The viewers hold the loaded \<^verbatim>\<open>data\<close> as a list of records, each a dict; the keyword is
  the string read from the prompt. The test the case-insensitive filters apply to a
  field value is \<^verbatim>\<open>isinstance(x, str) and keyword.lower() in x.lower()\<close>.
\<close>

definition matches_keyword :: "(string \<Rightarrow> string) \<Rightarrow> pyval \<Rightarrow> string \<Rightarrow> bool" where
  "matches_keyword lower x keyword =
     (case x of PStr s \<Rightarrow> py_in (lower keyword) (lower s) | _ \<Rightarrow> False)"

text \<open>
  The lower-casing single-field filters (\<^verbatim>\<open>filter_by_subject\<close>, \<^verbatim>\<open>filter_by_purpose\<close>,
  \<^verbatim>\<open>filter_by_rating_agency\<close>, \<^verbatim>\<open>filter_by_action\<close>, the event calendar's
  \<^verbatim>\<open>filter_by_company\<close>) are one loop with a different field name each: read the field
  with the default \<^verbatim>\<open>''\<close>, test it, append the record to \<^verbatim>\<open>filtered\<close>. The code has no
  filter that takes the field name; \<open>filter_by_field\<close> is the loop these functions share.
\<close>

fun filter_field_loop ::
  "(string \<Rightarrow> string) \<Rightarrow> string \<Rightarrow> string \<Rightarrow> pydict list \<Rightarrow> pydict list \<Rightarrow> pydict list" where
  "filter_field_loop lower field keyword [] filtered = filtered"
| "filter_field_loop lower field keyword (r # rest) filtered =
     (let x = dict_get r field (PStr []) in
      if matches_keyword lower x keyword
      then filter_field_loop lower field keyword rest (filtered @ [r])
      else filter_field_loop lower field keyword rest filtered)"

definition filter_by_field ::
  "(string \<Rightarrow> string) \<Rightarrow> string \<Rightarrow> pydict list \<Rightarrow> string \<Rightarrow> pydict list" where
  "filter_by_field lower field data keyword = filter_field_loop lower field keyword data []"

definition filter_by_subject :: "(string \<Rightarrow> string) \<Rightarrow> pydict list \<Rightarrow> string \<Rightarrow> pydict list" where
  "filter_by_subject lower data keyword = filter_by_field lower ''SUBJECT'' data keyword"






section \<open>CSV export (choice 9 of \<^verbatim>\<open>interactive_menu\<close>)\<close>
















section \<open>Paginated fetching (\<^verbatim>\<open>fetch_all_data.py\<close>)\<close>

text \<open>
  The remote source is the environment of \<^verbatim>\<open>fetch_all_pages\<close>: a function from the request
  sent by \<^verbatim>\<open>requests.get\<close> to what comes back. The call either raises (connection
  error, timeout) or returns a response with a status code and a body;
  \<^verbatim>\<open>response.json()\<close> either decodes the body to a value or raises. Within one run no
  request is sent twice (the page number grows), so a function of the request covers
  a source whose answers change over time.
\<close>

datatype response = Raises | Reply int "pyval option"

record request =
  url :: string
  query :: pydict

type_synonym remote = "request \<Rightarrow> response"

definition BASE_URL :: string where
  "BASE_URL = ''https://nseeventboard-production.up.railway.app''"

definition OUTPUT_DIR :: string where
  "OUTPUT_DIR = ''fetched_data''"

text \<open>
  The local variables of the loop, and \<open>sent\<close>, the requests issued so far (the trace of
  the calls of \<^verbatim>\<open>requests.get\<close>). \<open>total_pages\<close> holds whatever value the response
  carried. Printing and the half-second sleep between pages are not modelled.
\<close>

record loop_state =
  page :: int
  total_pages :: pyval
  metadata :: pyval
  all_data :: "pyval list"
  params :: pydict
  sent :: "request list"

text \<open>
  \<^verbatim>\<open>all_data.extend(page_data)\<close> appends the items of an iterable: the elements of a list,
  the characters of a string, the keys of a dict; anything else raises \<^verbatim>\<open>TypeError\<close>.
\<close>

definition extend_items :: "pyval \<Rightarrow> pyval list option" where
  "extend_items v =
     (case v of
        PList xs \<Rightarrow> Some xs
      | PStr s \<Rightarrow> Some (map (\<lambda>c. PStr [c]) s)
      | PDict d \<Rightarrow> Some (map (\<lambda>kv. PStr (fst kv)) d)
      | _ \<Rightarrow> None)"

text \<open>
  One pass through the body of the \<^verbatim>\<open>while\<close> loop. Every exception raised inside the
  \<^verbatim>\<open>try\<close> block is caught and ends the loop, as the two explicit \<^verbatim>\<open>break\<close>s do; the
  assignments made before the exception stay.
\<close>

datatype step = Break loop_state | Continue loop_state

definition fetch_page :: "remote \<Rightarrow> string \<Rightarrow> loop_state \<Rightarrow> step" where
  "fetch_page remote endpoint st =
     (let params' = AList.update ''per_page'' (PInt 1000)
                      (AList.update ''page'' (PInt (page st)) (params st));
          req = \<lparr>url = BASE_URL @ endpoint, query = params'\<rparr>;
          st1 = st\<lparr>params := params', sent := sent st @ [req]\<rparr>
      in case remote req of
           Raises \<Rightarrow> Break st1
         | Reply status_code body \<Rightarrow>
             if status_code \<noteq> 200 then Break st1
             else
               (case body of
                  Some (PDict data) \<Rightarrow>
                    if \<not> truthy (dict_get data ''success'' PNone) then Break st1
                    else
                      let st2 = st1\<lparr>metadata := dict_get data ''metadata'' (PDict [])\<rparr> in
                      (case dict_get data ''pagination'' (PDict []) of
                         PDict pagination \<Rightarrow>
                           let st3 = st2\<lparr>total_pages := dict_get pagination ''total_pages'' (PInt 1)\<rparr> in
                           (case extend_items (dict_get data ''data'' (PList [])) of
                              Some page_data \<Rightarrow>
                                Continue (st3\<lparr>all_data := all_data st3 @ page_data,
                                               page := page st3 + 1\<rparr>)
                            | None \<Rightarrow> Break st3)
                       | _ \<Rightarrow> Break st2)
                | _ \<Rightarrow> Break st1))"

text \<open>
  The loop test \<^verbatim>\<open>page <= total_pages\<close> stands outside the \<^verbatim>\<open>try\<close> block: comparing an
  int with a string, \<^verbatim>\<open>None\<close>, a list or a dict raises a \<^verbatim>\<open>TypeError\<close> that leaves
  \<^verbatim>\<open>fetch_all_pages\<close>.
\<close>

definition page_le :: "int \<Rightarrow> pyval \<Rightarrow> py_error + bool" where
  "page_le p tp =
     (case tp of
        PInt n \<Rightarrow> Inr (p \<le> n)
      | PBool b \<Rightarrow> Inr (p \<le> (if b then 1 else 0))
      | _ \<Rightarrow> Inl TypeError)"

text \<open>
  The loop need not end (a source may report one more page on every response), so
  it is a partial function: \<open>None\<close> is a run that never returns.
\<close>

partial_function (option) fetch_loop :: "remote \<Rightarrow> string \<Rightarrow> loop_state \<Rightarrow> (py_error + loop_state) option" where
  "fetch_loop remote endpoint st =
     (case page_le (page st) (total_pages st) of
        Inl e \<Rightarrow> Some (Inl e)
      | Inr go \<Rightarrow>
          if go then
            (case fetch_page remote endpoint st of
               Break st' \<Rightarrow> Some (Inr st')
             | Continue st' \<Rightarrow> fetch_loop remote endpoint st')
          else Some (Inr st))"

declare fetch_loop.simps [code]

text \<open>
  What a call leaves behind: the returned dict, the content of the object \<^verbatim>\<open>params\<close>
  names when the call returns (the caller's own dict when one was passed, since the
  loop writes into it and never rebinds the name), and the requests made. \<open>now\<close> is
  the clock reading \<^verbatim>\<open>datetime.now().isoformat()\<close>.
\<close>

record fetch_result =
  dataset :: pydict
  caller_params :: pydict
  requests :: "request list"

definition make_dataset :: "string \<Rightarrow> string \<Rightarrow> loop_state \<Rightarrow> pydict" where
  "make_dataset now endpoint st =
     [(''metadata'', metadata st),
      (''total_records'', PInt (int (length (all_data st)))),
      (''fetched_at'', PStr now),
      (''source'', PStr endpoint),
      (''params'', PDict (params st)),
      (''data'', PList (all_data st))]"

text \<open>\<^verbatim>\<open>if params is None: params = {}\<close>\<close>

definition given_params :: "pydict option \<Rightarrow> pydict" where
  "given_params params_arg = (case params_arg of None \<Rightarrow> [] | Some p \<Rightarrow> p)"

definition fetch_all_pages ::
  "remote \<Rightarrow> string \<Rightarrow> string \<Rightarrow> pydict option \<Rightarrow> (py_error + fetch_result) option" where
  "fetch_all_pages remote now endpoint params_arg =
     (let st0 = \<lparr>page = 1, total_pages = PInt 1, metadata = PDict [], all_data = [],
                 params = given_params params_arg, sent = []\<rparr>
      in case fetch_loop remote endpoint st0 of
           None \<Rightarrow> None
         | Some (Inl e) \<Rightarrow> Some (Inl e)
         | Some (Inr st) \<Rightarrow>
             Some (Inr \<lparr>dataset = make_dataset now endpoint st,
                        caller_params = params st,
                        requests = sent st\<rparr>))"

text \<open>
  The vocabulary of the claims about a run. \<open>page_request\<close> is the request for page
  \<open>p\<close>: the caller's parameters with \<^verbatim>\<open>page\<close> and \<^verbatim>\<open>per_page\<close> written into them. A page
  succeeds, reporting \<open>n\<close> pages, when the status is 200, the body is a dict with a
  truthy \<^verbatim>\<open>success\<close>, a \<^verbatim>\<open>pagination\<close> dict with \<^verbatim>\<open>total_pages\<close> \<open>n\<close> and a list under
  \<^verbatim>\<open>data\<close>. A page fails in one of three ways: the call raises, the status is not 200,
  or the body is a dict whose \<^verbatim>\<open>success\<close> is absent or falsy.
\<close>

definition page_params :: "pydict \<Rightarrow> int \<Rightarrow> pydict" where
  "page_params params0 p =
     AList.update ''per_page'' (PInt 1000) (AList.update ''page'' (PInt p) params0)"

definition page_request :: "string \<Rightarrow> pydict \<Rightarrow> int \<Rightarrow> request" where
  "page_request endpoint params0 p = \<lparr>url = BASE_URL @ endpoint, query = page_params params0 p\<rparr>"

definition page_succeeds :: "int \<Rightarrow> response \<Rightarrow> bool" where
  "page_succeeds n r =
     (case r of
        Reply status_code (Some (PDict data)) \<Rightarrow>
          status_code = 200 \<and> truthy (dict_get data ''success'' PNone)
          \<and> (case map_of data ''pagination'' of
                Some (PDict pagination) \<Rightarrow> map_of pagination ''total_pages'' = Some (PInt n)
              | _ \<Rightarrow> False)
          \<and> (case map_of data ''data'' of Some (PList xs) \<Rightarrow> True | _ \<Rightarrow> False)
      | _ \<Rightarrow> False)"

definition page_records :: "response \<Rightarrow> pyval list" where
  "page_records r =
     (case r of
        Reply status_code (Some (PDict data)) \<Rightarrow>
          (case map_of data ''data'' of Some (PList xs) \<Rightarrow> xs | _ \<Rightarrow> [])
      | _ \<Rightarrow> [])"

definition page_metadata :: "response \<Rightarrow> pyval" where
  "page_metadata r =
     (case r of
        Reply status_code (Some (PDict data)) \<Rightarrow> dict_get data ''metadata'' (PDict [])
      | _ \<Rightarrow> PDict [])"

definition page_fails :: "response \<Rightarrow> bool" where
  "page_fails r =
     (case r of
        Raises \<Rightarrow> True
      | Reply status_code body \<Rightarrow>
          status_code \<noteq> 200
          \<or> (case body of
                Some (PDict data) \<Rightarrow> \<not> truthy (dict_get data ''success'' PNone)
              | _ \<Rightarrow> False))"

section \<open>Saving datasets and the summary (\<^verbatim>\<open>fetch_all_data.py\<close>)\<close>

text \<open>
  The output directory is the list of the writes made to it, oldest first: the path
  and the JSON value dumped. A function that writes takes the list and returns it
  extended, next to its result or the exception that leaves it. Opening a file is
  taken to succeed (\<^verbatim>\<open>main\<close> creates the directory first).
\<close>

type_synonym files = "(string \<times> pydict) list"

text \<open>
  \<^verbatim>\<open>save_to_json\<close> writes the file, then prints \<^verbatim>\<open>len(data['data'])\<close>, which needs the key
  and a value with a length.
\<close>

definition save_to_json :: "pydict \<Rightarrow> string \<Rightarrow> files \<Rightarrow> (py_error + unit) \<times> files" where
  "save_to_json data filename fs =
     (let fs' = fs @ [(OUTPUT_DIR @ ''/'' @ filename, data)] in
      case map_of data ''data'' of
        None \<Rightarrow> (Inl KeyError, fs')
      | Some v \<Rightarrow> (case extend_items v of None \<Rightarrow> (Inl TypeError, fs') | Some _ \<Rightarrow> (Inr (), fs')))"

text \<open>
  \<^verbatim>\<open>fetch_event_calendar\<close> and \<^verbatim>\<open>fetch_crd\<close>: fetch, save, return the dataset.
\<close>

definition fetch_and_save ::
  "remote \<Rightarrow> string \<Rightarrow> string \<Rightarrow> string \<Rightarrow> files \<Rightarrow> ((py_error + pydict) \<times> files) option" where
  "fetch_and_save remote now endpoint filename fs =
     (case fetch_all_pages remote now endpoint None of
        None \<Rightarrow> None
      | Some (Inl e) \<Rightarrow> Some (Inl e, fs)
      | Some (Inr res) \<Rightarrow>
          (case save_to_json (dataset res) filename fs of
             (Inl e, fs') \<Rightarrow> Some (Inl e, fs')
           | (Inr u, fs') \<Rightarrow> Some (Inr (dataset res), fs')))"

definition fetch_event_calendar :: "remote \<Rightarrow> string \<Rightarrow> files \<Rightarrow> ((py_error + pydict) \<times> files) option" where
  "fetch_event_calendar remote now fs =
     fetch_and_save remote now ''/event-calendar'' ''event_calendar_all.json'' fs"

definition fetch_crd :: "remote \<Rightarrow> string \<Rightarrow> files \<Rightarrow> ((py_error + pydict) \<times> files) option" where
  "fetch_crd remote now fs = fetch_and_save remote now ''/crd'' ''crd_all.json'' fs"

text \<open>
  The value of \<^verbatim>\<open>data['total_records']\<close> where it is used as a number (\<^verbatim>\<open>> 0\<close>, \<^verbatim>\<open>+=\<close>):
  a missing key raises \<^verbatim>\<open>KeyError\<close>, a value that is neither int nor bool \<^verbatim>\<open>TypeError\<close>.
\<close>

definition total_records_of :: "pydict \<Rightarrow> py_error + int" where
  "total_records_of data =
     (case map_of data ''total_records'' of
        None \<Rightarrow> Inl KeyError
      | Some (PInt n) \<Rightarrow> Inr n
      | Some (PBool b) \<Rightarrow> Inr (if b then 1 else 0)
      | Some _ \<Rightarrow> Inl TypeError)"

text \<open>
  \<^verbatim>\<open>fetch_announcements\<close> and \<^verbatim>\<open>fetch_credit_rating\<close> are the same loop over their markets,
  with their own endpoint and file-name prefix: fetch with \<^verbatim>\<open>{'market': market}\<close>, and
  only when \<^verbatim>\<open>total_records > 0\<close> save the dataset and enter it in \<^verbatim>\<open>results\<close>.
\<close>

fun fetch_markets ::
  "remote \<Rightarrow> string \<Rightarrow> string \<Rightarrow> string \<Rightarrow> string list \<Rightarrow> (string \<times> pydict) list \<Rightarrow> files
     \<Rightarrow> ((py_error + (string \<times> pydict) list) \<times> files) option" where
  "fetch_markets remote now endpoint stem [] results fs = Some (Inr results, fs)"
| "fetch_markets remote now endpoint stem (market # rest) results fs =
     (case fetch_all_pages remote now endpoint (Some [(''market'', PStr market)]) of
        None \<Rightarrow> None
      | Some (Inl e) \<Rightarrow> Some (Inl e, fs)
      | Some (Inr res) \<Rightarrow>
          (case total_records_of (dataset res) of
             Inl e \<Rightarrow> Some (Inl e, fs)
           | Inr n \<Rightarrow>
               if n > 0 then
                 (case save_to_json (dataset res) (stem @ market @ ''_all.json'') fs of
                    (Inl e, fs') \<Rightarrow> Some (Inl e, fs')
                  | (Inr u, fs') \<Rightarrow>
                      fetch_markets remote now endpoint stem rest
                        (AList.update market (dataset res) results) fs')
               else fetch_markets remote now endpoint stem rest results fs))"

definition fetch_announcements ::
  "remote \<Rightarrow> string \<Rightarrow> files \<Rightarrow> ((py_error + (string \<times> pydict) list) \<times> files) option" where
  "fetch_announcements remote now fs =
     fetch_markets remote now ''/announcements'' ''announcements_''
       [''equity'', ''sme'', ''debt'', ''mf''] [] fs"

definition fetch_credit_rating ::
  "remote \<Rightarrow> string \<Rightarrow> files \<Rightarrow> ((py_error + (string \<times> pydict) list) \<times> files) option" where
  "fetch_credit_rating remote now fs =
     fetch_markets remote now ''/credit-rating'' ''credit_rating_'' [''equity'', ''sme''] [] fs"

text \<open>
  \<^verbatim>\<open>create_summary\<close>. Its argument is the dict \<^verbatim>\<open>main\<close> fills: up to four keys, two of them
  holding one dataset and two a dict from market to dataset. The summary is a dict
  with five fixed keys, read and written through these keys only.
\<close>

record results =
  event_calendar :: "pydict option"
  announcements :: "(string \<times> pydict) list option"
  crd :: "pydict option"
  credit_rating :: "(string \<times> pydict) list option"

record summary =
  fetch_timestamp :: string
  api_url :: string
  total_files :: int
  total_records :: int
  datasets :: "(string \<times> pydict) list"

text \<open>
  One block of \<^verbatim>\<open>create_summary\<close>: enter the dataset under its name with its record
  count and file, add the count to \<^verbatim>\<open>total_records\<close> and one to \<^verbatim>\<open>total_files\<close>.
\<close>

definition add_dataset :: "string \<Rightarrow> string \<Rightarrow> pydict \<Rightarrow> summary \<Rightarrow> py_error + summary" where
  "add_dataset name file data s =
     (case map_of data ''total_records'' of
        None \<Rightarrow> Inl KeyError
      | Some records \<Rightarrow>
          (case total_records_of data of
             Inl e \<Rightarrow> Inl e
           | Inr n \<Rightarrow>
               Inr (s\<lparr>datasets := AList.update name [(''records'', records), (''file'', PStr file)]
                                    (datasets s),
                      total_records := total_records s + n,
                      total_files := total_files s + 1\<rparr>)))"

fun add_markets :: "string \<Rightarrow> (string \<times> pydict) list \<Rightarrow> summary \<Rightarrow> py_error + summary" where
  "add_markets stem [] s = Inr s"
| "add_markets stem ((market, data) # rest) s =
     (case add_dataset (stem @ market) (stem @ market @ ''_all.json'') data s of
        Inl e \<Rightarrow> Inl e
      | Inr s' \<Rightarrow> add_markets stem rest s')"

definition summary_json :: "summary \<Rightarrow> pydict" where
  "summary_json s =
     [(''fetch_timestamp'', PStr (fetch_timestamp s)),
      (''api_url'', PStr (api_url s)),
      (''total_files'', PInt (total_files s)),
      (''total_records'', PInt (total_records s)),
      (''datasets'', PDict (map (\<lambda>kv. (fst kv, PDict (snd kv))) (datasets s)))]"

definition create_summary :: "string \<Rightarrow> results \<Rightarrow> files \<Rightarrow> (py_error + summary) \<times> files" where
  "create_summary now rs fs =
     (let s0 = \<lparr>fetch_timestamp = now, api_url = BASE_URL, total_files = 0, total_records = 0,
                 datasets = []\<rparr>;
          r1 = (case event_calendar rs of
                  None \<Rightarrow> Inr s0
                | Some data \<Rightarrow> add_dataset ''event_calendar'' ''event_calendar_all.json'' data s0);
          r2 = (case r1 of
                  Inl e \<Rightarrow> Inl e
                | Inr s \<Rightarrow> (case announcements rs of
                               None \<Rightarrow> Inr s
                             | Some ms \<Rightarrow> add_markets ''announcements_'' ms s));
          r3 = (case r2 of
                  Inl e \<Rightarrow> Inl e
                | Inr s \<Rightarrow> (case crd rs of
                               None \<Rightarrow> Inr s
                             | Some data \<Rightarrow> add_dataset ''crd'' ''crd_all.json'' data s));
          r4 = (case r3 of
                  Inl e \<Rightarrow> Inl e
                | Inr s \<Rightarrow> (case credit_rating rs of
                               None \<Rightarrow> Inr s
                             | Some ms \<Rightarrow> add_markets ''credit_rating_'' ms s))
      in case r4 of
           Inl e \<Rightarrow> (Inl e, fs)
         | Inr s \<Rightarrow> (Inr s, fs @ [(OUTPUT_DIR @ ''/summary.json'', summary_json s)]))"

text \<open>
  The vocabulary of the claim about the summary: the datasets present in the input,
  each under the name the summary gives it, in the order of the four blocks; and the
  record count a dataset carries.
\<close>

definition named_datasets :: "results \<Rightarrow> (string \<times> pydict) list" where
  "named_datasets rs =
     (case event_calendar rs of None \<Rightarrow> [] | Some data \<Rightarrow> [(''event_calendar'', data)])
     @ (case announcements rs of
          None \<Rightarrow> []
        | Some ms \<Rightarrow> map (\<lambda>kv. (''announcements_'' @ fst kv, snd kv)) ms)
     @ (case crd rs of None \<Rightarrow> [] | Some data \<Rightarrow> [(''crd'', data)])
     @ (case credit_rating rs of
          None \<Rightarrow> []
        | Some ms \<Rightarrow> map (\<lambda>kv. (''credit_rating_'' @ fst kv, snd kv)) ms)"

text \<open>
  The four blocks add their datasets one after the other; \<open>add_named\<close> is that sequence
  as one loop over the named datasets, the form in which it is reasoned about.
\<close>

fun add_named :: "(string \<times> pydict) list \<Rightarrow> summary \<Rightarrow> py_error + summary" where
  "add_named [] s = Inr s"
| "add_named (kv # rest) s =
     (case add_dataset (fst kv) (fst kv @ ''_all.json'') (snd kv) s of
        Inl e \<Rightarrow> Inl e
      | Inr s' \<Rightarrow> add_named rest s')"

definition markets_of :: "(string \<times> pydict) list option \<Rightarrow> string list" where
  "markets_of x = (case x of None \<Rightarrow> [] | Some ms \<Rightarrow> map fst ms)"

definition record_count :: "pydict \<Rightarrow> int" where
  "record_count data = (case map_of data ''total_records'' of Some (PInt n) \<Rightarrow> n | _ \<Rightarrow> 0)"

definition has_record_count :: "pydict \<Rightarrow> bool" where
  "has_record_count data = (case map_of data ''total_records'' of Some (PInt n) \<Rightarrow> True | _ \<Rightarrow> False)"

definition summary_entry :: "string \<times> pydict \<Rightarrow> string \<times> pydict" where
  "summary_entry kv =
     (fst kv, [(''records'', PInt (record_count (snd kv))), (''file'', PStr (fst kv @ ''_all.json''))])"

text \<open>A dataset with at least one record under \<^verbatim>\<open>data\<close>.\<close>

definition nonempty_dataset :: "pydict \<Rightarrow> bool" where
  "nonempty_dataset data = (case map_of data ''data'' of Some (PList xs) \<Rightarrow> xs \<noteq> [] | _ \<Rightarrow> False)"

text \<open>The result of a call that returns normally, if it does.\<close>

definition returned :: "(py_error + 'a) option \<Rightarrow> 'a option" where
  "returned r = (case r of Some (Inr res) \<Rightarrow> Some res | _ \<Rightarrow> None)"

text \<open>
  Three remote sources used as concrete inputs. The first serves two pages, three
  records then two, reporting two pages on both. The second serves the same first
  page and answers every other request with status 500. The third has no records:
  it answers every request successfully with an empty page and \<^verbatim>\<open>total_pages\<close> 0.
\<close>

definition page_body :: "int \<Rightarrow> pyval list \<Rightarrow> pyval" where
  "page_body n records =
     PDict [(''success'', PBool True),
            (''metadata'', PDict [(''source_url'', PStr ''nse'')]),
            (''pagination'', PDict [(''total_pages'', PInt n)]),
            (''data'', PList records)]"

definition remote_two_pages :: remote where
  "remote_two_pages req =
     (if map_of (query req) ''page'' = Some (PInt 1)
      then Reply 200 (Some (page_body 2 [PStr ''a1'', PStr ''a2'', PStr ''a3'']))
      else if map_of (query req) ''page'' = Some (PInt 2)
      then Reply 200 (Some (page_body 2 [PStr ''b1'', PStr ''b2'']))
      else Reply 404 None)"

definition remote_fails_page2 :: remote where
  "remote_fails_page2 req =
     (if map_of (query req) ''page'' = Some (PInt 1)
      then Reply 200 (Some (page_body 2 [PStr ''a1'', PStr ''a2'', PStr ''a3'']))
      else Reply 500 None)"

definition remote_no_pages :: remote where
  "remote_no_pages req = Reply 200 (Some (page_body 0 []))"

section \<open>Properties\<close>

subsection \<open>Strings\<close>


lemma digits_nonempty: "digits n \<noteq> []"
  by (subst digits.simps) simp

lemma py_repr_nonempty: "py_repr v \<noteq> []"
  by (cases v) (simp_all add: int_str_def digits_nonempty repr_str_def Let_def)

lemma py_str_dict_nonempty: "py_str (PDict d) \<noteq> []"
  by (simp add: py_str_def)

lemma py_str_truthy_nonempty: "truthy v \<Longrightarrow> py_str v \<noteq> []"
  using py_repr_nonempty [of v] by (cases v) (simp_all add: py_str_def)

subsection \<open>Cell formatting\<close>

lemma format_cell_run_eq: "format_cell_run v = Inr (format_cell v)"
  by (cases v)
     (simp_all add: format_cell_run_def format_cell_def is_dict_def py_contains_def
        py_getitem_def py_get_def dict_get_def split: option.splits)

lemma format_cell_latest_run_eq: "format_cell_latest_run v = Inr (format_cell_latest v)"
  by (cases v)
     (simp_all add: format_cell_latest_run_def format_cell_latest_def is_dict_def py_contains_def
        py_getitem_def split: option.splits)

subsection \<open>Filters\<close>

lemma filter_field_loop_eq:
  "filter_field_loop lower field keyword data acc =
     acc @ filter (\<lambda>r. matches_keyword lower (dict_get r field (PStr [])) keyword) data"
  by (induction data arbitrary: acc) (simp_all add: Let_def)

lemma filter_by_field_eq:
  "filter_by_field lower field data keyword =
     filter (\<lambda>r. matches_keyword lower (dict_get r field (PStr [])) keyword) data"
  by (simp add: filter_by_field_def filter_field_loop_eq)






subsection \<open>The page loop\<close>

lemma update_in_place_swap:
  "k \<noteq> k' \<Longrightarrow> AList.update k v (AList.update k' v' (AList.update k w al))
     = AList.update k' v' (AList.update k v al)"
  by (induction al) auto

lemma page_params_idem: "page_params (page_params d p) q = page_params d q"
proof -
  have "AList.update ''page'' (PInt q) (AList.update ''per_page'' (PInt 1000) (AList.update ''page'' (PInt p) d))
        = AList.update ''per_page'' (PInt 1000) (AList.update ''page'' (PInt q) d)"
    by (rule update_in_place_swap) simp
  then show ?thesis by (simp add: page_params_def)
qed

lemma page_request_idem:
  "page_request endpoint (page_params d p) q = page_request endpoint d q"
  by (simp add: page_request_def page_params_idem)

lemma page_succeeds_iff:
  "page_succeeds n r \<longleftrightarrow>
     (\<exists>data pagination xs. r = Reply 200 (Some (PDict data))
        \<and> truthy (dict_get data ''success'' PNone)
        \<and> map_of data ''pagination'' = Some (PDict pagination)
        \<and> map_of pagination ''total_pages'' = Some (PInt n)
        \<and> map_of data ''data'' = Some (PList xs))"
proof (cases r)
  case Raises
  then show ?thesis by (simp add: page_succeeds_def)
next
  case (Reply status_code body)
  show ?thesis
  proof (cases body)
    case None
    with Reply show ?thesis by (simp add: page_succeeds_def)
  next
    case (Some v)
    show ?thesis
    proof (cases v)
      case (PDict data)
      with Reply Some show ?thesis
        by (auto simp: page_succeeds_def split: option.splits pyval.splits)
    qed (use Reply Some in \<open>simp_all add: page_succeeds_def\<close>)
  qed
qed

lemma fetch_page_succeeds:
  assumes "page_succeeds n (remote (page_request endpoint (params st) (page st)))"
  shows "fetch_page remote endpoint st =
           Continue (st\<lparr>page := page st + 1,
                        total_pages := PInt n,
                        metadata := page_metadata (remote (page_request endpoint (params st) (page st))),
                        all_data := all_data st @ page_records (remote (page_request endpoint (params st) (page st))),
                        params := page_params (params st) (page st),
                        sent := sent st @ [page_request endpoint (params st) (page st)]\<rparr>)"
proof -
  let ?req = "page_request endpoint (params st) (page st)"
  from assms obtain data pagination xs where
    r: "remote ?req = Reply 200 (Some (PDict data))"
    and ok: "truthy (dict_get data ''success'' PNone)"
    and pg: "map_of data ''pagination'' = Some (PDict pagination)"
    and tp: "map_of pagination ''total_pages'' = Some (PInt n)"
    and xs: "map_of data ''data'' = Some (PList xs)"
    unfolding page_succeeds_iff by blast
  have req: "\<lparr>url = BASE_URL @ endpoint,
             query = AList.update ''per_page'' (PInt 1000) (AList.update ''page'' (PInt (page st)) (params st))\<rparr>
             = ?req"
    by (simp add: page_request_def page_params_def)
  have d1: "dict_get data ''pagination'' (PDict []) = PDict pagination"
    using pg by (simp add: dict_get_def)
  have d2: "dict_get pagination ''total_pages'' (PInt 1) = PInt n"
    using tp by (simp add: dict_get_def)
  have d3: "dict_get data ''data'' (PList []) = PList xs"
    using xs by (simp add: dict_get_def)
  have m: "page_metadata (remote ?req) = dict_get data ''metadata'' (PDict [])"
    by (simp add: r page_metadata_def)
  have rs: "page_records (remote ?req) = xs"
    by (simp add: r page_records_def xs)
  show ?thesis
    unfolding fetch_page_def Let_def req
    by (simp add: r ok d1 d2 d3 xs page_metadata_def page_records_def extend_items_def page_params_def)
qed

lemma fetch_page_fails:
  assumes "page_fails (remote (page_request endpoint (params st) (page st)))"
  shows "fetch_page remote endpoint st =
           Break (st\<lparr>params := page_params (params st) (page st),
                     sent := sent st @ [page_request endpoint (params st) (page st)]\<rparr>)"
  using assms
  by (auto simp: fetch_page_def page_fails_def page_request_def page_params_def Let_def
      split: response.splits option.splits pyval.splits)


lemma fetch_loop_stop:
  assumes "total_pages st = PInt n" and "\<not> page st \<le> n"
  shows "fetch_loop remote endpoint st = Some (Inr st)"
  using assms by (subst fetch_loop.simps) (simp add: page_le_def)

lemma fetch_loop_continue:
  assumes "total_pages st = PInt n" and "page st \<le> n"
    and "fetch_page remote endpoint st = Continue st'"
  shows "fetch_loop remote endpoint st = fetch_loop remote endpoint st'"
  using assms by (subst fetch_loop.simps) (simp add: page_le_def)

lemma fetch_loop_break:
  assumes "total_pages st = PInt n" and "page st \<le> n"
    and "fetch_page remote endpoint st = Break st'"
  shows "fetch_loop remote endpoint st = Some (Inr st')"
  using assms by (subst fetch_loop.simps) (simp add: page_le_def)

lemma fetch_loop_all_pages:
  assumes "total_pages st = PInt n"
    and "\<forall>p. page st \<le> p \<and> p \<le> n \<longrightarrow>
           page_succeeds n (remote (page_request endpoint (params st) p))"
  shows "\<exists>st'. fetch_loop remote endpoint st = Some (Inr st')
      \<and> all_data st' = all_data st @
          concat (map (\<lambda>p. page_records (remote (page_request endpoint (params st) p))) [page st..n])
      \<and> sent st' = sent st @ map (page_request endpoint (params st)) [page st..n]
      \<and> params st' = (if page st \<le> n then page_params (params st) n else params st)"
  using assms
proof (induction k \<equiv> "nat (n + 1 - page st)" arbitrary: st)
  case 0
  then have "\<not> page st \<le> n" by simp
  with 0 show ?case by (simp add: fetch_loop_stop)
next
  case (Suc k)
  from Suc.hyps(2) have le: "page st \<le> n" by linarith
  let ?r = "remote (page_request endpoint (params st) (page st))"
  define st1 where "st1 = st\<lparr>page := page st + 1, total_pages := PInt n,
      metadata := page_metadata ?r, all_data := all_data st @ page_records ?r,
      params := page_params (params st) (page st),
      sent := sent st @ [page_request endpoint (params st) (page st)]\<rparr>"
  have step: "fetch_page remote endpoint st = Continue st1"
    unfolding st1_def using Suc.prems(2) le by (intro fetch_page_succeeds) simp
  have loop: "fetch_loop remote endpoint st = fetch_loop remote endpoint st1"
    using Suc.prems(1) le step by (rule fetch_loop_continue)
  have k: "k = nat (n + 1 - page st1)"
    using Suc.hyps(2) by (simp add: st1_def)
  have tp1: "total_pages st1 = PInt n" by (simp add: st1_def)
  have ok1: "\<forall>p. page st1 \<le> p \<and> p \<le> n \<longrightarrow>
               page_succeeds n (remote (page_request endpoint (params st1) p))"
    using Suc.prems(2) by (simp add: st1_def page_request_idem)
  from Suc.hyps(1) [OF k tp1 ok1] obtain st' where
    r: "fetch_loop remote endpoint st1 = Some (Inr st')"
    and d: "all_data st' = all_data st1 @
          concat (map (\<lambda>p. page_records (remote (page_request endpoint (params st1) p))) [page st1..n])"
    and s: "sent st' = sent st1 @ map (page_request endpoint (params st1)) [page st1..n]"
    and q: "params st' = (if page st1 \<le> n then page_params (params st1) n else params st1)"
    by blast
  have up: "[page st..n] = page st # [page st + 1..n]"
    using le by (rule upto_rec1)
  have "all_data st' = all_data st @
          concat (map (\<lambda>p. page_records (remote (page_request endpoint (params st) p))) [page st..n])"
    using d by (simp add: st1_def page_request_idem up)
  moreover have "sent st' = sent st @ map (page_request endpoint (params st)) [page st..n]"
    using s by (simp add: st1_def page_request_idem up)
  moreover have "params st' = page_params (params st) n"
  proof (cases "page st + 1 \<le> n")
    case True
    with q show ?thesis by (simp add: st1_def page_params_idem)
  next
    case False
    with le have "page st = n" by simp
    with q False show ?thesis by (simp add: st1_def)
  qed
  ultimately show ?case using loop r le by simp
qed

lemma fetch_loop_truncated:
  assumes "total_pages st = PInt n" and "page st \<le> k" and "k \<le> n"
    and "\<forall>p. page st \<le> p \<and> p < k \<longrightarrow>
           page_succeeds n (remote (page_request endpoint (params st) p))"
    and "page_fails (remote (page_request endpoint (params st) k))"
  shows "\<exists>st'. fetch_loop remote endpoint st = Some (Inr st')
      \<and> all_data st' = all_data st @
          concat (map (\<lambda>p. page_records (remote (page_request endpoint (params st) p))) [page st..k - 1])
      \<and> sent st' = sent st @ map (page_request endpoint (params st)) [page st..k]
      \<and> params st' = page_params (params st) k"
  using assms
proof (induction j \<equiv> "nat (k - page st)" arbitrary: st)
  case 0
  then have eq: "page st = k" by simp
  define st1 where "st1 = st\<lparr>params := page_params (params st) (page st),
      sent := sent st @ [page_request endpoint (params st) (page st)]\<rparr>"
  have "fetch_page remote endpoint st = Break st1"
    unfolding st1_def using "0.prems"(5) eq by (intro fetch_page_fails) simp
  with "0.prems"(1,3) eq have "fetch_loop remote endpoint st = Some (Inr st1)"
    by (intro fetch_loop_break [where n = n]) simp_all
  then show ?case by (simp add: st1_def eq)
next
  case (Suc j)
  from Suc.hyps(2) have lt: "page st < k" by linarith
  with Suc.prems(3) have le: "page st \<le> n" by simp
  let ?r = "remote (page_request endpoint (params st) (page st))"
  define st1 where "st1 = st\<lparr>page := page st + 1, total_pages := PInt n,
      metadata := page_metadata ?r, all_data := all_data st @ page_records ?r,
      params := page_params (params st) (page st),
      sent := sent st @ [page_request endpoint (params st) (page st)]\<rparr>"
  have step: "fetch_page remote endpoint st = Continue st1"
    unfolding st1_def using Suc.prems(4) lt by (intro fetch_page_succeeds) simp
  have loop: "fetch_loop remote endpoint st = fetch_loop remote endpoint st1"
    using Suc.prems(1) le step by (rule fetch_loop_continue)
  have j: "j = nat (k - page st1)"
    using Suc.hyps(2) by (simp add: st1_def)
  have tp1: "total_pages st1 = PInt n" by (simp add: st1_def)
  have le1: "page st1 \<le> k" using lt by (simp add: st1_def)
  have ok1: "\<forall>p. page st1 \<le> p \<and> p < k \<longrightarrow>
               page_succeeds n (remote (page_request endpoint (params st1) p))"
    using Suc.prems(4) by (simp add: st1_def page_request_idem)
  have bad1: "page_fails (remote (page_request endpoint (params st1) k))"
    using Suc.prems(5) by (simp add: st1_def page_request_idem)
  from Suc.hyps(1) [OF j tp1 le1 Suc.prems(3) ok1 bad1] obtain st' where
    r: "fetch_loop remote endpoint st1 = Some (Inr st')"
    and d: "all_data st' = all_data st1 @
          concat (map (\<lambda>p. page_records (remote (page_request endpoint (params st1) p))) [page st1..k - 1])"
    and s: "sent st' = sent st1 @ map (page_request endpoint (params st1)) [page st1..k]"
    and q: "params st' = page_params (params st1) k"
    by blast
  have up: "[page st..k] = page st # [page st + 1..k]"
    using lt by (intro upto_rec1) simp
  have up': "[page st..k - 1] = page st # [page st + 1..k - 1]"
    using lt by (intro upto_rec1) simp
  have "all_data st' = all_data st @
          concat (map (\<lambda>p. page_records (remote (page_request endpoint (params st) p))) [page st..k - 1])"
    using d by (simp add: st1_def page_request_idem up')
  moreover have "sent st' = sent st @ map (page_request endpoint (params st)) [page st..k]"
    using s by (simp add: st1_def page_request_idem up)
  moreover have "params st' = page_params (params st) k"
    using q by (simp add: st1_def page_params_idem)
  ultimately show ?case using loop r by simp
qed


lemma fetch_page_Break:
  assumes "fetch_page remote endpoint st = Break st'"
  shows "params st' = page_params (params st) (page st)
       \<and> sent st' = sent st @ [page_request endpoint (params st) (page st)]
       \<and> all_data st' = all_data st"
  using assms
  by (simp add: fetch_page_def Let_def page_params_def page_request_def
      split: response.splits option.splits pyval.splits if_splits)
    auto

lemma fetch_page_Continue:
  assumes "fetch_page remote endpoint st = Continue st'"
  shows "params st' = page_params (params st) (page st)
       \<and> sent st' = sent st @ [page_request endpoint (params st) (page st)]
       \<and> page st' = page st + 1"
  using assms
  by (simp add: fetch_page_def Let_def page_params_def page_request_def
      split: response.splits option.splits pyval.splits if_splits)
    auto

lemma int_length_concat:
  "int (length (concat (map f ps))) = sum_list (map (\<lambda>p. int (length (f p))) ps)"
  by (induction ps) simp_all

lemma fetch_loop_first_page:
  assumes "page st = 1" and "total_pages st = PInt 1"
    and "page_succeeds n (remote (page_request endpoint (params st) 1))"
  shows "fetch_loop remote endpoint st =
           fetch_loop remote endpoint
             (st\<lparr>page := 2, total_pages := PInt n,
                  metadata := page_metadata (remote (page_request endpoint (params st) 1)),
                  all_data := all_data st @ page_records (remote (page_request endpoint (params st) 1)),
                  params := page_params (params st) 1,
                  sent := sent st @ [page_request endpoint (params st) 1]\<rparr>)"
proof -
  have "fetch_page remote endpoint st =
          Continue (st\<lparr>page := page st + 1, total_pages := PInt n,
                  metadata := page_metadata (remote (page_request endpoint (params st) (page st))),
                  all_data := all_data st @ page_records (remote (page_request endpoint (params st) (page st))),
                  params := page_params (params st) (page st),
                  sent := sent st @ [page_request endpoint (params st) (page st)]\<rparr>)"
    using assms(1,3) by (intro fetch_page_succeeds) simp
  with assms(1,2) show ?thesis
    by (subst fetch_loop.simps) (simp add: page_le_def)
qed


lemma fetch_loop_start:
  assumes "page_succeeds n (remote (page_request endpoint params0 1))"
  shows "fetch_loop remote endpoint
           \<lparr>page = 1, total_pages = PInt 1, metadata = PDict [], all_data = [],
            params = params0, sent = []\<rparr> =
         fetch_loop remote endpoint
           \<lparr>page = 2, total_pages = PInt n,
            metadata = page_metadata (remote (page_request endpoint params0 1)),
            all_data = page_records (remote (page_request endpoint params0 1)),
            params = page_params params0 1,
            sent = [page_request endpoint params0 1]\<rparr>"
  using assms
  by (subst fetch_loop_first_page [where n = n]) simp_all

lemma upto_from_one: "[1..max 1 n] = 1 # [2..n]"
proof (cases "1 \<le> n")
  case True
  then have "[1..n] = 1 # [1 + 1..n]" by (rule upto_rec1)
  with True show ?thesis by (simp add: max_def)
next
  case False
  then show ?thesis by (simp add: max_def)
qed

lemma make_dataset_lookups:
  "map_of (make_dataset now endpoint st) ''data'' = Some (PList (all_data st))"
  "map_of (make_dataset now endpoint st) ''total_records'' = Some (PInt (int (length (all_data st))))"
  "map_of (make_dataset now endpoint st) ''params'' = Some (PDict (params st))"
  "map_of (make_dataset now endpoint st) ''fetch_error'' = None"
  "map fst (make_dataset now endpoint st) =
     [''metadata'', ''total_records'', ''fetched_at'', ''source'', ''params'', ''data'']"
  by (simp_all add: make_dataset_def)

lemma remote_two_pages_ok:
  "\<forall>p. 1 \<le> p \<and> p \<le> max 1 2 \<longrightarrow>
       page_succeeds 2 (remote_two_pages (page_request ''/event-calendar'' (given_params None) p))"
proof (intro allI impI)
  fix p :: int
  assume "1 \<le> p \<and> p \<le> max 1 2"
  then have p: "p = 1 \<or> p = 2" by auto
  have p1: "page_succeeds 2 (remote_two_pages (page_request ''/event-calendar'' (given_params None) 1))"
    by code_simp
  have p2: "page_succeeds 2 (remote_two_pages (page_request ''/event-calendar'' (given_params None) 2))"
    by code_simp
  from p p1 p2
  show "page_succeeds 2 (remote_two_pages (page_request ''/event-calendar'' (given_params None) p))"
    by blast
qed

lemma remote_fails_page2_ok:
  "\<forall>p. 1 \<le> p \<and> p < 2 \<longrightarrow>
       page_succeeds 2 (remote_fails_page2 (page_request ''/crd'' (given_params None) p))"
proof (intro allI impI)
  fix p :: int
  assume "1 \<le> p \<and> p < 2"
  then have p: "p = 1" by auto
  have "page_succeeds 2 (remote_fails_page2 (page_request ''/crd'' (given_params None) 1))"
    by code_simp
  with p show "page_succeeds 2 (remote_fails_page2 (page_request ''/crd'' (given_params None) p))"
    by simp
qed

lemma page_request_cong:
  "\<forall>p. page_params d p = page_params d' p \<Longrightarrow> page_request endpoint d p = page_request endpoint d' p"
  by (simp add: page_request_def)

lemma fetch_loop_params:
  assumes "fetch_loop remote endpoint st = Some y"
  shows "1 \<le> page st
      \<and> sent st = map (page_request endpoint params0) [1..page st - 1]
      \<and> (\<forall>p. page_params (params st) p = page_params params0 p)
      \<and> (page st = 1 \<and> total_pages st = PInt 1
           \<or> 1 < page st \<and> params st = page_params params0 (page st - 1))
      \<longrightarrow> (\<forall>st'. y = Inr st' \<longrightarrow>
             (\<exists>m. 1 \<le> m \<and> sent st' = map (page_request endpoint params0) [1..m]
                  \<and> params st' = page_params params0 m))"
  using assms
proof (induction rule: fetch_loop.raw_induct [rotated 1, consumes 1, case_names step])
  case (step loop remote endpoint st y)
  note ih = step(1) and body = step(2)
  show ?case
  proof (intro impI allI)
    fix st'
    assume H: "1 \<le> page st
      \<and> sent st = map (page_request endpoint params0) [1..page st - 1]
      \<and> (\<forall>p. page_params (params st) p = page_params params0 p)
      \<and> (page st = 1 \<and> total_pages st = PInt 1
           \<or> 1 < page st \<and> params st = page_params params0 (page st - 1))"
      and y: "y = Inr st'"
    from H have pos: "1 \<le> page st"
      and snt: "sent st = map (page_request endpoint params0) [1..page st - 1]"
      and par: "\<forall>p. page_params (params st) p = page_params params0 p"
      and fst: "page st = 1 \<and> total_pages st = PInt 1
           \<or> 1 < page st \<and> params st = page_params params0 (page st - 1)"
      by blast+
    have req: "page_request endpoint (params st) (page st) = page_request endpoint params0 (page st)"
      using par by (rule page_request_cong)
    have up: "[1..page st] = [1..page st - 1] @ [page st]"
      using pos by (rule upto_rec2)
    show "\<exists>m. 1 \<le> m \<and> sent st' = map (page_request endpoint params0) [1..m]
                  \<and> params st' = page_params params0 m"
    proof (cases "page_le (page st) (total_pages st)")
      case (Inl e)
      with body y show ?thesis by simp
    next
      case (Inr go)
      show ?thesis
      proof (cases go)
        case False
        with Inr body y have st': "st' = st" by simp
        from False Inr fst have "1 < page st \<and> params st = page_params params0 (page st - 1)"
          by (auto simp: page_le_def)
        with snt st' show ?thesis by (intro exI [of _ "page st - 1"]) simp
      next
        case True
        show ?thesis
        proof (cases "fetch_page remote endpoint st")
          case (Break s1)
          with True Inr body y have st': "st' = s1" by simp
          from fetch_page_Break [OF Break] req snt par up pos st'
          show ?thesis by (intro exI [of _ "page st"]) simp
        next
          case (Continue s1)
          with True Inr body have run: "loop remote endpoint s1 = Some y" by simp
          from fetch_page_Continue [OF Continue] req
          have p1: "params s1 = page_params params0 (page st)"
            and s1: "sent s1 = sent st @ [page_request endpoint params0 (page st)]"
            and g1: "page s1 = page st + 1"
            using par by simp_all
          have "1 \<le> page s1
              \<and> sent s1 = map (page_request endpoint params0) [1..page s1 - 1]
              \<and> (\<forall>p. page_params (params s1) p = page_params params0 p)
              \<and> (page s1 = 1 \<and> total_pages s1 = PInt 1
                   \<or> 1 < page s1 \<and> params s1 = page_params params0 (page s1 - 1))"
            using pos snt up by (simp add: p1 s1 g1 page_params_idem)
          with ih [OF run] y show ?thesis by blast
        qed
      qed
    qed
  qed
qed

lemma page_params_lookup:
  "map_of (page_params d p) ''page'' = Some (PInt p)"
  "map_of (page_params d p) ''per_page'' = Some (PInt 1000)"
  "key \<noteq> ''page'' \<Longrightarrow> key \<noteq> ''per_page'' \<Longrightarrow> map_of (page_params d p) key = map_of d key"
  by (simp_all add: page_params_def update_conv')

subsection \<open>Building the summary\<close>

lemma update_fresh: "k \<notin> fst ` set al \<Longrightarrow> AList.update k v al = al @ [(k, v)]"
  by (induction al) auto

lemma total_records_of_count:
  "has_record_count data \<Longrightarrow> total_records_of data = Inr (record_count data)
     \<and> map_of data ''total_records'' = Some (PInt (record_count data))"
  by (auto simp: has_record_count_def total_records_of_def record_count_def
      split: option.splits pyval.splits)

lemma add_dataset_fresh:
  assumes "has_record_count data" and "name \<notin> fst ` set (datasets s)"
  shows "add_dataset name (name @ ''_all.json'') data s =
           Inr (s\<lparr>datasets := datasets s @ [summary_entry (name, data)],
                  total_records := total_records s + record_count data,
                  total_files := total_files s + 1\<rparr>)"
  using total_records_of_count [OF assms(1)] assms(2)
  by (simp add: add_dataset_def update_fresh summary_entry_def)

lemma add_named_fresh:
  assumes "list_all has_record_count (map snd nds)" and "distinct (map fst nds)"
    and "fst ` set nds \<inter> fst ` set (datasets s) = {}"
  shows "add_named nds s =
           Inr (s\<lparr>datasets := datasets s @ map summary_entry nds,
                  total_records := total_records s + sum_list (map (\<lambda>kv. record_count (snd kv)) nds),
                  total_files := total_files s + int (length nds)\<rparr>)"
  using assms
proof (induction nds arbitrary: s)
  case Nil
  then show ?case by simp
next
  case (Cons kv nds)
  let ?s1 = "s\<lparr>datasets := datasets s @ [summary_entry (fst kv, snd kv)],
                  total_records := total_records s + record_count (snd kv),
                  total_files := total_files s + 1\<rparr>"
  have step: "add_dataset (fst kv) (fst kv @ ''_all.json'') (snd kv) s = Inr ?s1"
    using Cons.prems by (intro add_dataset_fresh) auto
  have disj: "fst ` set nds \<inter> fst ` set (datasets ?s1) = {}"
    using Cons.prems by (auto simp: summary_entry_def)
  have "add_named nds ?s1 =
           Inr (?s1\<lparr>datasets := datasets ?s1 @ map summary_entry nds,
                  total_records := total_records ?s1 + sum_list (map (\<lambda>kv. record_count (snd kv)) nds),
                  total_files := total_files ?s1 + int (length nds)\<rparr>)"
    using Cons.prems disj by (intro Cons.IH) simp_all
  with step show ?case by (simp add: add.assoc)
qed

lemma add_markets_named:
  "add_markets stem ms s = add_named (map (\<lambda>kv. (stem @ fst kv, snd kv)) ms) s"
  by (induction ms arbitrary: s) (auto split: sum.splits)

lemma add_named_append:
  "add_named (xs @ ys) s = (case add_named xs s of Inl e \<Rightarrow> Inl e | Inr s' \<Rightarrow> add_named ys s')"
  by (induction xs arbitrary: s) (auto split: sum.splits)

lemma add_markets_block_named:
  "(case x of None \<Rightarrow> Inr s | Some ms \<Rightarrow> add_markets stem ms s)
     = add_named (case x of None \<Rightarrow> [] | Some ms \<Rightarrow> map (\<lambda>kv. (stem @ fst kv, snd kv)) ms) s"
  by (cases x) (simp_all add: add_markets_named)

lemma create_summary_named:
  "create_summary now rs fs =
     (case add_named (named_datasets rs)
             \<lparr>fetch_timestamp = now, api_url = BASE_URL, total_files = 0, total_records = 0,
              datasets = []\<rparr> of
        Inl e \<Rightarrow> (Inl e, fs)
      | Inr s \<Rightarrow> (Inr s, fs @ [(OUTPUT_DIR @ ''/summary.json'', summary_json s)]))"
proof -
  let ?A = "case event_calendar rs of None \<Rightarrow> [] | Some data \<Rightarrow> [(''event_calendar'', data)]"
  let ?B = "case announcements rs of None \<Rightarrow> []
            | Some ms \<Rightarrow> map (\<lambda>kv. (''announcements_'' @ fst kv, snd kv)) ms"
  let ?C = "case crd rs of None \<Rightarrow> [] | Some data \<Rightarrow> [(''crd'', data)]"
  let ?D = "case credit_rating rs of None \<Rightarrow> []
            | Some ms \<Rightarrow> map (\<lambda>kv. (''credit_rating_'' @ fst kv, snd kv)) ms"
  have b1: "(case event_calendar rs of None \<Rightarrow> Inr s
             | Some data \<Rightarrow> add_dataset ''event_calendar'' ''event_calendar_all.json'' data s)
            = add_named ?A s" for s
    by (cases "event_calendar rs") (simp_all split: sum.splits)
  have b3: "(case crd rs of None \<Rightarrow> Inr s
             | Some data \<Rightarrow> add_dataset ''crd'' ''crd_all.json'' data s)
            = add_named ?C s" for s
    by (cases "crd rs") (simp_all split: sum.splits)
  have nd: "named_datasets rs = ((?A @ ?B) @ ?C) @ ?D"
    by (simp add: named_datasets_def)
  show ?thesis
    unfolding create_summary_def Let_def nd b1 b3 add_markets_block_named add_named_append
    by (rule refl)
qed

lemma named_datasets_distinct:
  assumes "distinct (markets_of (announcements rs))" and "distinct (markets_of (credit_rating rs))"
  shows "distinct (map fst (named_datasets rs))"
  using assms
  by (auto simp: named_datasets_def markets_of_def distinct_map comp_def inj_on_def
      split: option.splits)

subsection \<open>Saving datasets\<close>

lemma fetch_all_pages_dataset:
  assumes "fetch_all_pages remote now endpoint params_arg = Some (Inr res)"
  shows "\<exists>st. dataset res = make_dataset now endpoint st"
  using assms by (auto simp: fetch_all_pages_def split: option.splits sum.splits)

lemma make_dataset_positive:
  "total_records_of (make_dataset now endpoint st) = Inr n \<Longrightarrow> n > 0
     \<Longrightarrow> nonempty_dataset (make_dataset now endpoint st)"
  by (auto simp: total_records_of_def make_dataset_def nonempty_dataset_def)

lemma save_to_json_files:
  "snd (save_to_json data filename fs) = fs @ [(OUTPUT_DIR @ ''/'' @ filename, data)]"
  by (simp add: save_to_json_def Let_def split: option.splits)

lemma fetch_markets_saves_nonempty:
  assumes "fetch_markets remote now endpoint stem markets results fs = Some (out, fs')"
  shows "\<exists>new. fs' = fs @ new \<and> list_all (\<lambda>f. nonempty_dataset (snd f)) new"
  using assms
proof (induction markets arbitrary: results fs)
  case Nil
  then show ?case by simp
next
  case (Cons market rest)
  show ?case
  proof (cases "fetch_all_pages remote now endpoint (Some [(''market'', PStr market)])")
    case None
    with Cons.prems show ?thesis by simp
  next
    case (Some r)
    show ?thesis
    proof (cases r)
      case (Inl e)
      with Some Cons.prems show ?thesis by simp
    next
      case (Inr res)
      from fetch_all_pages_dataset [OF Some [unfolded Inr]] obtain st where
        ds: "dataset res = make_dataset now endpoint st" by blast
      show ?thesis
      proof (cases "total_records_of (dataset res)")
        case (Inl e)
        with Some Inr Cons.prems show ?thesis by simp
      next
        case n: (Inr n)
        show ?thesis
        proof (cases "n > 0")
          case False
          with Some Inr n Cons.prems
          have "fetch_markets remote now endpoint stem rest results fs = Some (out, fs')" by simp
          from Cons.IH [OF this] show ?thesis .
        next
          case True
          have ne: "nonempty_dataset (dataset res)"
            using n True unfolding ds by (rule make_dataset_positive)
          obtain r1 fs1 where sv: "save_to_json (dataset res) (stem @ market @ ''_all.json'') fs = (r1, fs1)"
            by (cases "save_to_json (dataset res) (stem @ market @ ''_all.json'') fs") blast
          have fs1: "fs1 = fs @ [(OUTPUT_DIR @ ''/'' @ stem @ market @ ''_all.json'', dataset res)]"
            using save_to_json_files [of "dataset res" "stem @ market @ ''_all.json''" fs] sv by simp
          show ?thesis
          proof (cases r1)
            case (Inl e)
            with Some Inr n True sv Cons.prems have "fs' = fs1" by simp
            with fs1 ne show ?thesis by simp
          next
            case (Inr u)
            with Some \<open>r = Inr res\<close> n True sv Cons.prems
            have "fetch_markets remote now endpoint stem rest
                    (AList.update market (dataset res) results) fs1 = Some (out, fs')" by simp
            from Cons.IH [OF this] obtain new where "fs' = fs1 @ new"
              and "list_all (\<lambda>f. nonempty_dataset (snd f)) new" by blast
            with fs1 ne show ?thesis by simp
          qed
        qed
      qed
    qed
  qed
qed

lemma make_dataset_record_count:
  "has_record_count (make_dataset now endpoint st)"
  "record_count (make_dataset now endpoint st) = int (length (all_data st))"
  by (simp_all add: has_record_count_def record_count_def make_dataset_def)

lemma list_all_update:
  "P v \<Longrightarrow> list_all P (map snd al) \<Longrightarrow> list_all P (map snd (AList.update k v al))"
  by (induction al) auto

lemma fetch_markets_results:
  assumes "fetch_markets remote now endpoint stem markets results fs = Some (Inr results', fs')"
    and "distinct (map fst results)"
    and "list_all has_record_count (map snd results)"
  shows "distinct (map fst results') \<and> list_all has_record_count (map snd results')"
  using assms
proof (induction markets arbitrary: results fs)
  case Nil
  then show ?case by simp
next
  case (Cons market rest)
  from Cons.prems(1) obtain res where
    run: "fetch_all_pages remote now endpoint (Some [(''market'', PStr market)]) = Some (Inr res)"
    by (auto split: option.splits sum.splits)
  from fetch_all_pages_dataset [OF run] obtain st where
    ds: "dataset res = make_dataset now endpoint st" by blast
  have cnt: "has_record_count (dataset res)"
    unfolding ds by (rule make_dataset_record_count)
  from Cons.prems(1) run obtain n where n: "total_records_of (dataset res) = Inr n"
    by (auto split: sum.splits)
  show ?case
  proof (cases "n > 0")
    case False
    with Cons.prems(1) run n
    have "fetch_markets remote now endpoint stem rest results fs = Some (Inr results', fs')" by simp
    from Cons.IH [OF this Cons.prems(2,3)] show ?thesis .
  next
    case True
    with Cons.prems(1) run n obtain fs1 where
      "fetch_markets remote now endpoint stem rest
         (AList.update market (dataset res) results) fs1 = Some (Inr results', fs')"
      by (auto split: prod.splits sum.splits)
    moreover have "distinct (map fst (AList.update market (dataset res) results))"
      using Cons.prems(2) by (rule distinct_update)
    moreover have "list_all has_record_count (map snd (AList.update market (dataset res) results))"
      using cnt Cons.prems(3) by (rule list_all_update)
    ultimately show ?thesis by (rule Cons.IH)
  qed
qed

lemma fetch_and_save_writes:
  assumes "fetch_all_pages remote now endpoint None = Some (Inr res)"
  shows "map_option snd (fetch_and_save remote now endpoint filename fs)
           = Some (fs @ [(OUTPUT_DIR @ ''/'' @ filename, dataset res)])"
proof -
  obtain r fs1 where sv: "save_to_json (dataset res) filename fs = (r, fs1)"
    by (cases "save_to_json (dataset res) filename fs") blast
  have "fs1 = fs @ [(OUTPUT_DIR @ ''/'' @ filename, dataset res)]"
    using save_to_json_files [of "dataset res" filename fs] sv by simp
  with assms sv show ?thesis
    by (cases r) (simp_all add: fetch_and_save_def)
qed

subsection \<open>The export branch\<close>











subsection \<open>Cell display\<close>

text \<open>
  C4. \<^verbatim>\<open>format_cell\<close> maps a plain string to itself; maps a rich cell whose \<^verbatim>\<open>text\<close> is the
  string \<open>t\<close> to \<open>t\<close> followed by \<^verbatim>\<open>" [PDF]"\<close> when its \<^verbatim>\<open>type\<close> is \<^verbatim>\<open>'pdf'\<close>, by
  \<^verbatim>\<open>" [XBRL]"\<close> when it is \<^verbatim>\<open>'xbrl'\<close>, and to \<open>t\<close> alone for every other or absent type;
  and maps \<^verbatim>\<open>None\<close> and the empty string to the empty string.
\<close>

theorem format_cell_display:
  "format_cell (PStr s) = PStr s
   \<and> (map_of d ''text'' = Some (PStr t) \<longrightarrow>
        format_cell (PDict d) =
          PStr (t @ (if map_of d ''type'' = Some (PStr ''pdf'') then '' [PDF]''
                     else if map_of d ''type'' = Some (PStr ''xbrl'') then '' [XBRL]''
                     else [])))
   \<and> format_cell PNone = PStr []
   \<and> format_cell (PStr []) = PStr []"
  by (simp add: format_cell_def py_str_def)

theorem format_cell_display_witness:
  "map_of [(''text'', PStr ''Q3 Results''), (''type'', PStr ''pdf''), (''link'', PStr ''a.pdf'')] ''text''
     = Some (PStr ''Q3 Results'')
   \<and> format_cell (PDict [(''text'', PStr ''Q3 Results''), (''type'', PStr ''pdf''), (''link'', PStr ''a.pdf'')])
     = PStr ''Q3 Results [PDF]''
   \<and> format_cell (PStr ''plain'') = PStr ''plain''"
  using format_cell_display
    [of "''plain''" "[(''text'', PStr ''Q3 Results''), (''type'', PStr ''pdf''), (''link'', PStr ''a.pdf'')]"
        "''Q3 Results''"]
  by simp

text \<open>
  C5, as the code has it. On every decoded JSON value built from \<^verbatim>\<open>null\<close>, booleans,
  integers, strings, arrays and objects, neither \<^verbatim>\<open>format_cell\<close> raises: run statement
  by statement over the raising operations, each returns the value of the error-free
  function. \<^verbatim>\<open>format_cell\<close> of \<^verbatim>\<open>view_announcements_data.py\<close> returns a string except
  exactly for a mapping whose \<^verbatim>\<open>text\<close> entry is not a string and whose \<^verbatim>\<open>type\<close> is neither
  \<^verbatim>\<open>'pdf'\<close> nor \<^verbatim>\<open>'xbrl'\<close>; for a mapping with a \<^verbatim>\<open>text\<close> entry and such a type it returns
  that entry itself, whatever it is. It returns the empty string exactly for a value
  that is not a mapping and is falsy (\<^verbatim>\<open>None\<close>, \<^verbatim>\<open>''\<close>, \<^verbatim>\<open>0\<close>, \<^verbatim>\<open>False\<close>, \<^verbatim>\<open>[]\<close>) and for a
  mapping whose \<^verbatim>\<open>text\<close> is the empty string and whose type is neither \<^verbatim>\<open>'pdf'\<close> nor
  \<^verbatim>\<open>'xbrl'\<close>. \<^verbatim>\<open>format_cell\<close> of \<^verbatim>\<open>view_latest_data.py\<close> returns the \<^verbatim>\<open>text\<close> entry itself
  for every mapping that has one, whatever its \<^verbatim>\<open>type\<close>: it returns a string except
  exactly when that entry is not a string, and the empty string exactly for a falsy
  value that is not a mapping and for a mapping whose \<^verbatim>\<open>text\<close> is the empty string. In
  both, a mapping without a \<^verbatim>\<open>text\<close> key gives its \<^verbatim>\<open>str()\<close> rendering, which is never
  empty.
\<close>

theorem format_cell_total:
  "format_cell_run v = Inr (format_cell v)
   \<and> format_cell_latest_run v = Inr (format_cell_latest v)
   \<and> (is_str (format_cell v) \<longleftrightarrow>
        \<not> (\<exists>d t. v = PDict d \<and> map_of d ''text'' = Some t \<and> \<not> is_str t
                  \<and> map_of d ''type'' \<noteq> Some (PStr ''pdf'')
                  \<and> map_of d ''type'' \<noteq> Some (PStr ''xbrl'')))
   \<and> (\<forall>d t. v = PDict d \<and> map_of d ''text'' = Some t
              \<and> map_of d ''type'' \<noteq> Some (PStr ''pdf'')
              \<and> map_of d ''type'' \<noteq> Some (PStr ''xbrl'') \<longrightarrow> format_cell v = t)
   \<and> (format_cell v = PStr [] \<longleftrightarrow>
        ((\<forall>d. v \<noteq> PDict d) \<and> \<not> truthy v)
        \<or> (\<exists>d. v = PDict d \<and> map_of d ''text'' = Some (PStr [])
                \<and> map_of d ''type'' \<noteq> Some (PStr ''pdf'')
                \<and> map_of d ''type'' \<noteq> Some (PStr ''xbrl'')))
   \<and> (is_str (format_cell_latest v) \<longleftrightarrow>
        \<not> (\<exists>d t. v = PDict d \<and> map_of d ''text'' = Some t \<and> \<not> is_str t))
   \<and> (\<forall>d t. v = PDict d \<and> map_of d ''text'' = Some t \<longrightarrow> format_cell_latest v = t)
   \<and> (format_cell_latest v = PStr [] \<longleftrightarrow>
        ((\<forall>d. v \<noteq> PDict d) \<and> \<not> truthy v)
        \<or> (\<exists>d. v = PDict d \<and> map_of d ''text'' = Some (PStr [])))
   \<and> (\<forall>d. v = PDict d \<and> map_of d ''text'' = None \<longrightarrow>
          format_cell v = PStr (py_str v) \<and> format_cell_latest v = PStr (py_str v)
          \<and> py_str v \<noteq> [])"
proof (intro conjI)
  show "format_cell_run v = Inr (format_cell v)"
    by (rule format_cell_run_eq)
  show "format_cell_latest_run v = Inr (format_cell_latest v)"
    by (rule format_cell_latest_run_eq)
  show "is_str (format_cell v) \<longleftrightarrow>
      \<not> (\<exists>d t. v = PDict d \<and> map_of d ''text'' = Some t \<and> \<not> is_str t
                \<and> map_of d ''type'' \<noteq> Some (PStr ''pdf'')
                \<and> map_of d ''type'' \<noteq> Some (PStr ''xbrl''))"
    by (cases v) (auto simp: format_cell_def is_str_def split: option.splits)
  show "\<forall>d t. v = PDict d \<and> map_of d ''text'' = Some t
              \<and> map_of d ''type'' \<noteq> Some (PStr ''pdf'')
              \<and> map_of d ''type'' \<noteq> Some (PStr ''xbrl'') \<longrightarrow> format_cell v = t"
    by (simp add: format_cell_def)
  show "format_cell v = PStr [] \<longleftrightarrow>
        ((\<forall>d. v \<noteq> PDict d) \<and> \<not> truthy v)
        \<or> (\<exists>d. v = PDict d \<and> map_of d ''text'' = Some (PStr [])
                \<and> map_of d ''type'' \<noteq> Some (PStr ''pdf'')
                \<and> map_of d ''type'' \<noteq> Some (PStr ''xbrl''))"
  proof (cases v)
    case (PDict d)
    then show ?thesis
      by (auto simp: format_cell_def py_str_dict_nonempty split: option.splits)
  qed (auto simp: format_cell_def py_str_truthy_nonempty)
  show "is_str (format_cell_latest v) \<longleftrightarrow>
        \<not> (\<exists>d t. v = PDict d \<and> map_of d ''text'' = Some t \<and> \<not> is_str t)"
    by (cases v) (auto simp: format_cell_latest_def is_str_def split: option.splits)
  show "\<forall>d t. v = PDict d \<and> map_of d ''text'' = Some t \<longrightarrow> format_cell_latest v = t"
    by (simp add: format_cell_latest_def)
  show "format_cell_latest v = PStr [] \<longleftrightarrow>
        ((\<forall>d. v \<noteq> PDict d) \<and> \<not> truthy v)
        \<or> (\<exists>d. v = PDict d \<and> map_of d ''text'' = Some (PStr []))"
  proof (cases v)
    case (PDict d)
    then show ?thesis
      by (auto simp: format_cell_latest_def py_str_dict_nonempty split: option.splits)
  qed (auto simp: format_cell_latest_def py_str_truthy_nonempty)
  show "\<forall>d. v = PDict d \<and> map_of d ''text'' = None \<longrightarrow>
          format_cell v = PStr (py_str v) \<and> format_cell_latest v = PStr (py_str v)
          \<and> py_str v \<noteq> []"
    by (auto simp: format_cell_def format_cell_latest_def py_str_dict_nonempty)
qed

theorem format_cell_total_witness:
  "format_cell_run (PDict [(''text'', PInt 7), (''type'', PStr ''pdf'')])
     = Inr (format_cell (PDict [(''text'', PInt 7), (''type'', PStr ''pdf'')]))
   \<and> is_str (format_cell (PDict [(''text'', PInt 7), (''type'', PStr ''pdf'')]))
   \<and> format_cell_latest (PDict [(''text'', PInt 7), (''type'', PStr ''pdf'')]) = PInt 7
   \<and> format_cell (PDict [(''text'', PInt 7), (''type'', PStr ''html'')]) = PInt 7
   \<and> format_cell_latest (PDict [(''text'', PStr []), (''type'', PStr ''pdf'')]) = PStr []
   \<and> format_cell (PInt 0) = PStr []
   \<and> format_cell (PDict [(''link'', PStr ''a.pdf'')]) = PStr (py_str (PDict [(''link'', PStr ''a.pdf'')]))
   \<and> format_cell_latest (PDict [(''link'', PStr ''a.pdf'')]) = PStr (py_str (PDict [(''link'', PStr ''a.pdf'')]))
   \<and> py_str (PDict [(''link'', PStr ''a.pdf'')]) \<noteq> []"
proof -
  let ?pdf = "PDict [(''text'', PInt 7), (''type'', PStr ''pdf'')]"
  have a: "format_cell_run ?pdf = Inr (format_cell ?pdf) \<and> is_str (format_cell ?pdf)
           \<and> format_cell_latest ?pdf = PInt 7"
    using format_cell_total [of ?pdf] by simp
  have b: "format_cell (PDict [(''text'', PInt 7), (''type'', PStr ''html'')]) = PInt 7"
    using format_cell_total [of "PDict [(''text'', PInt 7), (''type'', PStr ''html'')]"] by simp
  have c: "format_cell_latest (PDict [(''text'', PStr []), (''type'', PStr ''pdf'')]) = PStr []"
    using format_cell_total [of "PDict [(''text'', PStr []), (''type'', PStr ''pdf'')]"] by simp
  have d: "format_cell (PInt 0) = PStr []"
    using format_cell_total [of "PInt 0"] by simp
  have e: "format_cell (PDict [(''link'', PStr ''a.pdf'')]) = PStr (py_str (PDict [(''link'', PStr ''a.pdf'')]))
           \<and> format_cell_latest (PDict [(''link'', PStr ''a.pdf'')]) = PStr (py_str (PDict [(''link'', PStr ''a.pdf'')]))
           \<and> py_str (PDict [(''link'', PStr ''a.pdf'')]) \<noteq> []"
    using format_cell_total [of "PDict [(''link'', PStr ''a.pdf'')]"] by simp
  from a b c d e show ?thesis by simp
qed

text \<open>
  The claim C5 as stated fails: the cell \<^verbatim>\<open>{"text": null}\<close> is returned as \<^verbatim>\<open>None\<close>, which is
  neither a string nor the empty string.
\<close>

theorem format_cell_total_counterexample:
  "format_cell (PDict [(''text'', PNone)]) = PNone
   \<and> \<not> is_str (format_cell (PDict [(''text'', PNone)]))
   \<and> format_cell (PDict [(''text'', PNone)]) \<noteq> PStr []"
  by (simp add: format_cell_def is_str_def)

subsection \<open>Filtering\<close>




text \<open>
  C7. The filter returns a subsequence of its input (the kept records, in their input
  order), and filtering its output again with the same field and keyword changes
  nothing. This holds for every function in the place of \<^verbatim>\<open>lower()\<close>.
\<close>

theorem filter_subseq_idempotent:
  "subseq (filter_by_field lower field data keyword) data
   \<and> filter_by_field lower field (filter_by_field lower field data keyword) keyword
       = filter_by_field lower field data keyword
   \<and> subseq (filter_by_subject lower data keyword) data
   \<and> filter_by_subject lower (filter_by_subject lower data keyword) keyword
       = filter_by_subject lower data keyword"
  by (simp add: filter_by_subject_def filter_by_field_eq)

theorem filter_subseq_idempotent_witness:
  "subseq (filter_by_subject py_lower
             [[(''SUBJECT'', PStr ''Final Dividend'')], [(''SYMBOL'', PStr ''ABC'')]] ''DIV'')
          [[(''SUBJECT'', PStr ''Final Dividend'')], [(''SYMBOL'', PStr ''ABC'')]]
   \<and> filter_by_subject py_lower (filter_by_subject py_lower
          [[(''SUBJECT'', PStr ''Final Dividend'')], [(''SYMBOL'', PStr ''ABC'')]] ''DIV'') ''DIV''
       = filter_by_subject py_lower
           [[(''SUBJECT'', PStr ''Final Dividend'')], [(''SYMBOL'', PStr ''ABC'')]] ''DIV''"
  using filter_subseq_idempotent [of py_lower "''SUBJECT''"
      "[[(''SUBJECT'', PStr ''Final Dividend'')], [(''SYMBOL'', PStr ''ABC'')]]" "''DIV''"]
  by simp

subsection \<open>Complete and truncated runs\<close>

text \<open>
  C1, as the code has it. If every response reports \<^verbatim>\<open>total_pages\<close> \<open>n\<close> and every page from
  1 to \<open>max 1 n\<close> succeeds, then \<^verbatim>\<open>fetch_all_pages\<close> returns, having made exactly \<open>max 1 n\<close>
  requests, those for pages 1, 2, ... in this order; the \<^verbatim>\<open>data\<close> of the returned
  dataset is the concatenation of the record lists of these pages in page order, and
  its \<^verbatim>\<open>total_records\<close> is the sum of their lengths. For \<open>n \<ge> 1\<close> that is \<open>n\<close> requests;
  page 1 is requested in any case, since the loop starts with \<^verbatim>\<open>total_pages = 1\<close>.
\<close>

theorem fetch_all_pages_complete:
  assumes "\<forall>p. 1 \<le> p \<and> p \<le> max 1 n \<longrightarrow>
             page_succeeds n (remote (page_request endpoint (given_params params_arg) p))"
  shows "\<exists>res. fetch_all_pages remote now endpoint params_arg = Some (Inr res)
      \<and> requests res = map (page_request endpoint (given_params params_arg)) [1..max 1 n]
      \<and> length (requests res) = nat (max 1 n)
      \<and> map_of (dataset res) ''data'' =
          Some (PList (concat (map (\<lambda>p. page_records
                  (remote (page_request endpoint (given_params params_arg) p))) [1..max 1 n])))
      \<and> map_of (dataset res) ''total_records'' =
          Some (PInt (sum_list (map (\<lambda>p. int (length (page_records
                  (remote (page_request endpoint (given_params params_arg) p))))) [1..max 1 n])))"
proof -
  let ?p0 = "given_params params_arg"
  let ?recs = "\<lambda>p. page_records (remote (page_request endpoint ?p0 p))"
  let ?st1 = "\<lparr>page = 2, total_pages = PInt n,
            metadata = page_metadata (remote (page_request endpoint ?p0 1)),
            all_data = ?recs 1, params = page_params ?p0 1,
            sent = [page_request endpoint ?p0 1]\<rparr>"
  from assms have first: "page_succeeds n (remote (page_request endpoint ?p0 1))" by simp
  have rest: "\<forall>p. page ?st1 \<le> p \<and> p \<le> n \<longrightarrow>
                page_succeeds n (remote (page_request endpoint (params ?st1) p))"
    using assms by (simp add: page_request_idem)
  have "total_pages ?st1 = PInt n" by simp
  from fetch_loop_all_pages [OF this rest] obtain st' where
    r: "fetch_loop remote endpoint ?st1 = Some (Inr st')"
    and d: "all_data st' = ?recs 1 @ concat (map ?recs [2..n])"
    and s: "sent st' = page_request endpoint ?p0 1 # map (page_request endpoint ?p0) [2..n]"
    by (auto simp: page_request_idem)
  let ?res = "\<lparr>dataset = make_dataset now endpoint st', caller_params = params st',
               requests = sent st'\<rparr>"
  have run: "fetch_all_pages remote now endpoint params_arg = Some (Inr ?res)"
    using fetch_loop_start [of n remote endpoint ?p0, OF first] r
    by (simp add: fetch_all_pages_def)
  have d': "all_data st' = concat (map ?recs [1..max 1 n])"
    using d by (simp add: upto_from_one)
  have s': "sent st' = map (page_request endpoint ?p0) [1..max 1 n]"
    using s by (simp add: upto_from_one)
  have len: "length (sent st') = nat (max 1 n)"
    unfolding s' by simp
  have tot: "int (length (all_data st')) = sum_list (map (\<lambda>p. int (length (?recs p))) [1..max 1 n])"
    unfolding d' by (rule int_length_concat)
  show ?thesis
    using run s' len d' tot by (simp add: make_dataset_lookups)
qed

theorem fetch_all_pages_complete_witness:
  "page_succeeds 2 (remote_two_pages (page_request ''/event-calendar'' (given_params None) 1))
   \<and> page_succeeds 2 (remote_two_pages (page_request ''/event-calendar'' (given_params None) 2))
   \<and> (\<exists>res. fetch_all_pages remote_two_pages ''2025-12-12T10:00:00'' ''/event-calendar'' None
               = Some (Inr res)
         \<and> length (requests res) = 2
         \<and> map_of (dataset res) ''data'' =
             Some (PList [PStr ''a1'', PStr ''a2'', PStr ''a3'', PStr ''b1'', PStr ''b2''])
         \<and> map_of (dataset res) ''total_records'' = Some (PInt 5))"
proof -
  have recs: "concat (map (\<lambda>p. page_records (remote_two_pages
                  (page_request ''/event-calendar'' (given_params None) p))) [1..max 1 2])
        = [PStr ''a1'', PStr ''a2'', PStr ''a3'', PStr ''b1'', PStr ''b2'']"
    by code_simp
  have total: "sum_list (map (\<lambda>p. int (length (page_records (remote_two_pages
                  (page_request ''/event-calendar'' (given_params None) p))))) [1..max 1 2]) = 5"
    by code_simp
  from fetch_all_pages_complete
    [where remote = remote_two_pages and n = 2 and endpoint = "''/event-calendar''"
       and params_arg = None and now = "''2025-12-12T10:00:00''", OF remote_two_pages_ok]
  show ?thesis
    unfolding recs total using remote_two_pages_ok by auto
qed

text \<open>
  The claim C1 as stated fails for \<open>n = 0\<close>: a source with no records reports
  \<^verbatim>\<open>total_pages\<close> 0 on its (successful) response, and one request is made, not none.
\<close>

theorem fetch_all_pages_complete_counterexample:
  "page_succeeds 0 (remote_no_pages (page_request ''/event-calendar'' [] 1))
   \<and> map_option (length \<circ> requests)
        (returned (fetch_all_pages remote_no_pages ''2025-12-12T10:00:00'' ''/event-calendar'' None))
       = Some 1"
  by code_simp

text \<open>
  C2, as the code has it. If the pages before \<open>k\<close> succeed (each reporting \<open>n \<ge> k\<close> pages) and
  page \<open>k > 1\<close> fails, by a raised transport error, a status other than 200 or a falsy
  \<^verbatim>\<open>success\<close>, then \<^verbatim>\<open>fetch_all_pages\<close> still returns a dataset to its caller; its \<^verbatim>\<open>data\<close> is
  the concatenation of the records of pages 1 to \<open>k - 1\<close>, and the request for page \<open>k\<close>
  is the last one made. The dataset has the same six keys as that of a complete run:
  the error is printed, and no \<^verbatim>\<open>fetch_error\<close> entry (or any other trace of it) is stored.
\<close>

theorem fetch_all_pages_truncated:
  assumes "1 < k" and "k \<le> n"
    and "\<forall>p. 1 \<le> p \<and> p < k \<longrightarrow>
           page_succeeds n (remote (page_request endpoint (given_params params_arg) p))"
    and "page_fails (remote (page_request endpoint (given_params params_arg) k))"
  shows "\<exists>res. fetch_all_pages remote now endpoint params_arg = Some (Inr res)
      \<and> map_of (dataset res) ''data'' =
          Some (PList (concat (map (\<lambda>p. page_records
                  (remote (page_request endpoint (given_params params_arg) p))) [1..k - 1])))
      \<and> requests res = map (page_request endpoint (given_params params_arg)) [1..k]
      \<and> map fst (dataset res) =
          [''metadata'', ''total_records'', ''fetched_at'', ''source'', ''params'', ''data'']
      \<and> map_of (dataset res) ''fetch_error'' = None"
proof -
  let ?p0 = "given_params params_arg"
  let ?recs = "\<lambda>p. page_records (remote (page_request endpoint ?p0 p))"
  let ?st1 = "\<lparr>page = 2, total_pages = PInt n,
            metadata = page_metadata (remote (page_request endpoint ?p0 1)),
            all_data = ?recs 1, params = page_params ?p0 1,
            sent = [page_request endpoint ?p0 1]\<rparr>"
  from assms(1,3) have first: "page_succeeds n (remote (page_request endpoint ?p0 1))" by simp
  have tp: "total_pages ?st1 = PInt n" by simp
  have le: "page ?st1 \<le> k" using assms(1) by simp
  have rest: "\<forall>p. page ?st1 \<le> p \<and> p < k \<longrightarrow>
                page_succeeds n (remote (page_request endpoint (params ?st1) p))"
    using assms(3) by (simp add: page_request_idem)
  have bad: "page_fails (remote (page_request endpoint (params ?st1) k))"
    using assms(4) by (simp add: page_request_idem)
  from fetch_loop_truncated [OF tp le assms(2) rest bad] obtain st' where
    r: "fetch_loop remote endpoint ?st1 = Some (Inr st')"
    and d: "all_data st' = ?recs 1 @ concat (map ?recs [2..k - 1])"
    and s: "sent st' = page_request endpoint ?p0 1 # map (page_request endpoint ?p0) [2..k]"
    by (auto simp: page_request_idem)
  let ?res = "\<lparr>dataset = make_dataset now endpoint st', caller_params = params st',
               requests = sent st'\<rparr>"
  have run: "fetch_all_pages remote now endpoint params_arg = Some (Inr ?res)"
    using fetch_loop_start [of n remote endpoint ?p0, OF first] r
    by (simp add: fetch_all_pages_def)
  have u1: "[1..k - 1] = 1 # [2..k - 1]"
    using assms(1) upto_rec1 [of 1 "k - 1"] by simp
  have u2: "[1..k] = 1 # [2..k]"
    using assms(1) upto_rec1 [of 1 k] by simp
  show ?thesis
    using run d s by (simp add: make_dataset_lookups u1 u2)
qed

theorem fetch_all_pages_truncated_witness:
  "(1::int) < 2 \<and> (2::int) \<le> 2
   \<and> page_succeeds 2 (remote_fails_page2 (page_request ''/crd'' (given_params None) 1))
   \<and> page_fails (remote_fails_page2 (page_request ''/crd'' (given_params None) 2))
   \<and> (\<exists>res. fetch_all_pages remote_fails_page2 ''2025-12-12T10:00:00'' ''/crd'' None = Some (Inr res)
         \<and> map_of (dataset res) ''data'' = Some (PList [PStr ''a1'', PStr ''a2'', PStr ''a3''])
         \<and> length (requests res) = 2
         \<and> map_of (dataset res) ''fetch_error'' = None)"
proof -
  have bad: "page_fails (remote_fails_page2 (page_request ''/crd'' (given_params None) 2))"
    by code_simp
  have recs: "concat (map (\<lambda>p. page_records (remote_fails_page2
                  (page_request ''/crd'' (given_params None) p))) [1..2 - 1])
        = [PStr ''a1'', PStr ''a2'', PStr ''a3'']"
    by code_simp
  have two: "length (map (page_request ''/crd'' (given_params None)) [1..2]) = 2"
    by simp
  have lt: "(1::int) < 2" and le: "(2::int) \<le> 2" by simp_all
  from fetch_all_pages_truncated
    [where remote = remote_fails_page2 and n = 2 and k = 2 and endpoint = "''/crd''"
       and params_arg = None and now = "''2025-12-12T10:00:00''",
     OF lt le remote_fails_page2_ok bad]
  show ?thesis
    unfolding recs using remote_fails_page2_ok bad two by auto
qed

text \<open>
  The claim C2 as stated fails: after the failure of page 2 the returned dataset has the
  six keys of every dataset and no \<^verbatim>\<open>fetch_error\<close>.
\<close>

theorem fetch_all_pages_truncated_counterexample:
  "page_fails (remote_fails_page2 (page_request ''/crd'' [] 2))
   \<and> map_option (map fst \<circ> dataset)
        (returned (fetch_all_pages remote_fails_page2 ''2025-12-12T10:00:00'' ''/crd'' None))
       = Some [''metadata'', ''total_records'', ''fetched_at'', ''source'', ''params'', ''data'']"
  by code_simp

subsection \<open>The query parameters\<close>

text \<open>
  C10. Every run of \<^verbatim>\<open>fetch_all_pages\<close> that returns a dataset, complete or truncated,
  has made at least one request, the requests being those for pages 1, 2, ... in
  order, each carrying the caller's parameters with \<^verbatim>\<open>page\<close> and \<^verbatim>\<open>per_page\<close> written
  into them. When it returns, the mapping that \<^verbatim>\<open>params\<close> names (the caller's own dict
  when one was passed) holds the parameters of the last request made: \<^verbatim>\<open>page\<close> is the
  number of that request, \<^verbatim>\<open>per_page\<close> is 1000, every other key is as the caller gave
  it. The \<^verbatim>\<open>params\<close> field of the dataset is that mapping.
\<close>

theorem fetch_all_pages_params:
  assumes "fetch_all_pages remote now endpoint params_arg = Some (Inr res)"
  shows "requests res \<noteq> []
    \<and> requests res = map (page_request endpoint (given_params params_arg))
                        [1..int (length (requests res))]
    \<and> query (last (requests res)) = caller_params res
    \<and> map_of (dataset res) ''params'' = Some (PDict (caller_params res))
    \<and> caller_params res = page_params (given_params params_arg) (int (length (requests res)))
    \<and> map_of (caller_params res) ''page'' = Some (PInt (int (length (requests res))))
    \<and> map_of (caller_params res) ''per_page'' = Some (PInt 1000)
    \<and> (\<forall>key. key \<noteq> ''page'' \<and> key \<noteq> ''per_page'' \<longrightarrow>
          map_of (caller_params res) key = map_of (given_params params_arg) key)"
proof -
  let ?p0 = "given_params params_arg"
  let ?st0 = "\<lparr>page = 1, total_pages = PInt 1, metadata = PDict [], all_data = [],
               params = ?p0, sent = []\<rparr>"
  from assms obtain st' where
    run: "fetch_loop remote endpoint ?st0 = Some (Inr st')"
    and res: "res = \<lparr>dataset = make_dataset now endpoint st', caller_params = params st',
                     requests = sent st'\<rparr>"
    by (auto simp: fetch_all_pages_def split: option.splits sum.splits)
  from fetch_loop_params [OF run, of ?p0] obtain m where
    m: "1 \<le> m" and s: "sent st' = map (page_request endpoint ?p0) [1..m]"
    and p: "params st' = page_params ?p0 m"
    by auto
  have len: "int (length (sent st')) = m"
    using m by (simp add: s)
  have up: "[1..m] = [1..m - 1] @ [m]"
    using m by (rule upto_rec2)
  have lst: "last (sent st') = page_request endpoint ?p0 m"
    unfolding s by (subst up) simp
  have ne: "sent st' \<noteq> []"
    unfolding s by (subst up) simp
  show ?thesis
    using ne lst s p
    by (simp add: res len make_dataset_lookups page_params_lookup page_request_def)
qed

theorem fetch_all_pages_params_witness:
  "fetch_all_pages remote_fails_page2 ''2025-12-12T10:00:00'' ''/announcements''
       (Some [(''page'', PInt 7), (''market'', PStr ''sme'')])
     = Some (Inr \<lparr>dataset =
                    [(''metadata'', PDict [(''source_url'', PStr ''nse'')]),
                     (''total_records'', PInt 3),
                     (''fetched_at'', PStr ''2025-12-12T10:00:00''),
                     (''source'', PStr ''/announcements''),
                     (''params'', PDict [(''page'', PInt 2), (''market'', PStr ''sme''),
                                         (''per_page'', PInt 1000)]),
                     (''data'', PList [PStr ''a1'', PStr ''a2'', PStr ''a3''])],
                  caller_params = [(''page'', PInt 2), (''market'', PStr ''sme''),
                                   (''per_page'', PInt 1000)],
                  requests = [page_request ''/announcements'' [(''page'', PInt 7), (''market'', PStr ''sme'')] 1,
                              page_request ''/announcements'' [(''page'', PInt 7), (''market'', PStr ''sme'')] 2]\<rparr>)
   \<and> map_of [(''page'', PInt 2), (''market'', PStr ''sme''), (''per_page'', PInt 1000)] ''page''
       = Some (PInt 2)"
proof -
  have run: "fetch_all_pages remote_fails_page2 ''2025-12-12T10:00:00'' ''/announcements''
       (Some [(''page'', PInt 7), (''market'', PStr ''sme'')])
     = Some (Inr \<lparr>dataset =
                    [(''metadata'', PDict [(''source_url'', PStr ''nse'')]),
                     (''total_records'', PInt 3),
                     (''fetched_at'', PStr ''2025-12-12T10:00:00''),
                     (''source'', PStr ''/announcements''),
                     (''params'', PDict [(''page'', PInt 2), (''market'', PStr ''sme''),
                                         (''per_page'', PInt 1000)]),
                     (''data'', PList [PStr ''a1'', PStr ''a2'', PStr ''a3''])],
                  caller_params = [(''page'', PInt 2), (''market'', PStr ''sme''),
                                   (''per_page'', PInt 1000)],
                  requests = [page_request ''/announcements'' [(''page'', PInt 7), (''market'', PStr ''sme'')] 1,
                              page_request ''/announcements'' [(''page'', PInt 7), (''market'', PStr ''sme'')] 2]\<rparr>)"
    by code_simp
  from fetch_all_pages_params [OF run]
  have "map_of [(''page'', PInt 2), (''market'', PStr ''sme''), (''per_page'', PInt 1000)] ''page''
          = Some (PInt (int (length [page_request ''/announcements'' [(''page'', PInt 7), (''market'', PStr ''sme'')] 1,
                              page_request ''/announcements'' [(''page'', PInt 7), (''market'', PStr ''sme'')] 2])))"
    unfolding fetch_result.simps by (elim conjE)
  then have "map_of [(''page'', PInt 2), (''market'', PStr ''sme''), (''per_page'', PInt 1000)] ''page''
          = Some (PInt 2)"
    unfolding list.size by simp
  with run show ?thesis by (rule conjI)
qed

subsection \<open>Empty datasets\<close>

text \<open>
  C3 (a dataset without records is never handed to \<^verbatim>\<open>save_to_json\<close>, on any endpoint)
  does not hold of the code. \<^verbatim>\<open>fetch_announcements\<close> and \<^verbatim>\<open>fetch_credit_rating\<close> save a
  dataset only when its \<^verbatim>\<open>total_records\<close> is positive (\<open>fetch_markets_saves_nonempty\<close>
  above), but \<^verbatim>\<open>fetch_event_calendar\<close> and \<^verbatim>\<open>fetch_crd\<close> call \<^verbatim>\<open>save_to_json\<close> without the
  test, whatever the dataset holds (\<open>fetch_and_save_writes\<close>). Against a source that
  has no records, the event calendar and the CRD run each write their file with a
  dataset of zero records, while the announcements and the credit-rating runs write
  nothing.
\<close>

theorem saves_empty_dataset:
  "map_option snd (fetch_event_calendar remote_no_pages ''2025-12-12T10:00:00'' [])
     = Some [(''fetched_data/event_calendar_all.json'',
              [(''metadata'', PDict [(''source_url'', PStr ''nse'')]),
               (''total_records'', PInt 0),
               (''fetched_at'', PStr ''2025-12-12T10:00:00''),
               (''source'', PStr ''/event-calendar''),
               (''params'', PDict [(''page'', PInt 1), (''per_page'', PInt 1000)]),
               (''data'', PList [])])]
   \<and> map_option snd (fetch_crd remote_no_pages ''2025-12-12T10:00:00'' [])
     = Some [(''fetched_data/crd_all.json'',
              [(''metadata'', PDict [(''source_url'', PStr ''nse'')]),
               (''total_records'', PInt 0),
               (''fetched_at'', PStr ''2025-12-12T10:00:00''),
               (''source'', PStr ''/crd''),
               (''params'', PDict [(''page'', PInt 1), (''per_page'', PInt 1000)]),
               (''data'', PList [])])]
   \<and> map_option snd (fetch_announcements remote_no_pages ''2025-12-12T10:00:00'' []) = Some []
   \<and> map_option snd (fetch_credit_rating remote_no_pages ''2025-12-12T10:00:00'' []) = Some []"
  by code_simp

subsection \<open>The summary\<close>

text \<open>
  C9. For datasets as \<^verbatim>\<open>fetch_all_pages\<close> builds them (an integer under \<^verbatim>\<open>total_records\<close>)
  and market dicts with distinct keys (both hold of what the fetch functions return:
  \<open>make_dataset_record_count\<close>, \<open>fetch_markets_results\<close>), \<^verbatim>\<open>create_summary\<close> returns a summary whose
  \<^verbatim>\<open>datasets\<close> has exactly one entry per dataset present in the input, in the order of
  the four blocks and under distinct names, each with the record count and the file
  name of its dataset; a dataset absent from the input has no entry. \<^verbatim>\<open>total_files\<close> is
  the number of these entries and \<^verbatim>\<open>total_records\<close> the sum of their record counts.
  The summary is also written to \<^verbatim>\<open>summary.json\<close>.
\<close>

theorem create_summary_counts:
  assumes "list_all has_record_count (map snd (named_datasets rs))"
    and "distinct (markets_of (announcements rs))"
    and "distinct (markets_of (credit_rating rs))"
  shows "\<exists>s. create_summary now rs fs
               = (Inr s, fs @ [(OUTPUT_DIR @ ''/summary.json'', summary_json s)])
      \<and> datasets s = map summary_entry (named_datasets rs)
      \<and> map fst (datasets s) = map fst (named_datasets rs)
      \<and> distinct (map fst (datasets s))
      \<and> total_files s = int (length (named_datasets rs))
      \<and> total_records s = sum_list (map (\<lambda>kv. record_count (snd kv)) (named_datasets rs))"
proof -
  let ?init = "\<lparr>fetch_timestamp = now, api_url = BASE_URL, total_files = 0, total_records = 0,
              datasets = []\<rparr>"
  let ?s = "?init\<lparr>datasets := datasets ?init @ map summary_entry (named_datasets rs),
                  total_records := total_records ?init
                      + sum_list (map (\<lambda>kv. record_count (snd kv)) (named_datasets rs)),
                  total_files := total_files ?init + int (length (named_datasets rs))\<rparr>"
  have d: "distinct (map fst (named_datasets rs))"
    using assms(2,3) by (rule named_datasets_distinct)
  have "add_named (named_datasets rs) ?init = Inr ?s"
    using assms(1) d by (intro add_named_fresh) simp_all
  then have run: "create_summary now rs fs
               = (Inr ?s, fs @ [(OUTPUT_DIR @ ''/summary.json'', summary_json ?s)])"
    by (simp add: create_summary_named)
  have ds: "datasets ?s = map summary_entry (named_datasets rs)" by simp
  have k: "map fst (datasets ?s) = map fst (named_datasets rs)"
    unfolding ds by (simp add: summary_entry_def comp_def)
  have dd: "distinct (map fst (datasets ?s))"
    unfolding k by (rule d)
  have tf: "total_files ?s = int (length (named_datasets rs))" by simp
  have tr: "total_records ?s = sum_list (map (\<lambda>kv. record_count (snd kv)) (named_datasets rs))"
    by simp
  from run ds k dd tf tr show ?thesis by blast
qed

theorem create_summary_counts_witness:
  "list_all has_record_count (map snd (named_datasets
       \<lparr>event_calendar = Some [(''total_records'', PInt 3)],
        announcements = Some [(''equity'', [(''total_records'', PInt 4)]),
                              (''mf'', [(''total_records'', PInt 1)])],
        crd = None, credit_rating = Some []\<rparr>))
   \<and> (\<exists>s. fst (create_summary ''2025-12-12T10:00:00''
       \<lparr>event_calendar = Some [(''total_records'', PInt 3)],
        announcements = Some [(''equity'', [(''total_records'', PInt 4)]),
                              (''mf'', [(''total_records'', PInt 1)])],
        crd = None, credit_rating = Some []\<rparr> []) = Inr s
        \<and> map fst (datasets s) = [''event_calendar'', ''announcements_equity'', ''announcements_mf'']
        \<and> total_files s = 3 \<and> total_records s = 8)"
proof -
  let ?rs = "\<lparr>event_calendar = Some [(''total_records'', PInt 3)],
        announcements = Some [(''equity'', [(''total_records'', PInt 4)]),
                              (''mf'', [(''total_records'', PInt 1)])],
        crd = None, credit_rating = Some []\<rparr>"
  have h1: "list_all has_record_count (map snd (named_datasets ?rs))" by code_simp
  have h2: "distinct (markets_of (announcements ?rs))" by code_simp
  have h3: "distinct (markets_of (credit_rating ?rs))" by code_simp
  have n: "map fst (named_datasets ?rs) = [''event_calendar'', ''announcements_equity'', ''announcements_mf'']"
    by code_simp
  have l: "int (length (named_datasets ?rs)) = 3" by code_simp
  have t: "sum_list (map (\<lambda>kv. record_count (snd kv)) (named_datasets ?rs)) = 8" by code_simp
  from create_summary_counts [OF h1 h2 h3, of "''2025-12-12T10:00:00''" "[]"]
  obtain s where r: "create_summary ''2025-12-12T10:00:00'' ?rs []
               = (Inr s, [] @ [(OUTPUT_DIR @ ''/summary.json'', summary_json s)])"
    and k: "map fst (datasets s) = map fst (named_datasets ?rs)"
    and f: "total_files s = int (length (named_datasets ?rs))"
    and c: "total_records s = sum_list (map (\<lambda>kv. record_count (snd kv)) (named_datasets ?rs))"
    by blast
  have "fst (create_summary ''2025-12-12T10:00:00'' ?rs []) = Inr s
        \<and> map fst (datasets s) = [''event_calendar'', ''announcements_equity'', ''announcements_mf'']
        \<and> total_files s = 3 \<and> total_records s = 8"
    unfolding r k f c n l t by simp
  then have "\<exists>s. fst (create_summary ''2025-12-12T10:00:00'' ?rs []) = Inr s
        \<and> map fst (datasets s) = [''event_calendar'', ''announcements_equity'', ''announcements_mf'']
        \<and> total_files s = 3 \<and> total_records s = 8" ..
  with h1 show ?thesis by (rule conjI)
qed

subsection \<open>CSV export\<close>




end
